theory Spec2Isabelle
  imports Main "HOL-Library.Word"
begin

unbundle bit_operations_syntax

section \<open>Character handles (term-internal.h, "Characters")\<close>

text \<open>
  \<^verbatim>\<open>struct term_char { uint64_t _value; };\<close>
  The single field is a 64-bit machine word. The C name of the field starts with an
  underscore, which is not an identifier here; it is called \<open>raw_value\<close>.
\<close>

record term_char_t =
  raw_value :: "64 word"

text \<open>\<^verbatim>\<open>#define TERM_CHAR_INIT(_val) ((term_char_t){ ._value = (_val) })\<close>\<close>

definition TERM_CHAR_INIT :: "64 word \<Rightarrow> term_char_t" where
  "TERM_CHAR_INIT val = \<lparr>raw_value = val\<rparr>"

text \<open>\<^verbatim>\<open>#define TERM_CHAR_NULL TERM_CHAR_INIT(0)\<close>\<close>

definition TERM_CHAR_NULL :: term_char_t where
  "TERM_CHAR_NULL = TERM_CHAR_INIT 0"

text \<open>\<^verbatim>\<open>return ch._value == 0;\<close>\<close>

definition term_char_is_null :: "term_char_t \<Rightarrow> bool" where
  "term_char_is_null ch = (raw_value ch = 0)"

text \<open>
  \<^verbatim>\<open>return !term_char_is_null(ch) && !(ch._value & 0x1);\<close>
  In C, \<open>!(e)\<close> on an integer is \<open>e == 0\<close>.
\<close>

definition term_char_is_allocated :: "term_char_t \<Rightarrow> bool" where
  "term_char_is_allocated ch = (\<not> term_char_is_null ch \<and> \<not> (raw_value ch AND 0x1 \<noteq> 0))"

text \<open>\<^verbatim>\<open>return a._value == b._value;\<close>\<close>

definition term_char_same :: "term_char_t \<Rightarrow> term_char_t \<Rightarrow> bool" where
  "term_char_same a b = (raw_value a = raw_value b)"

text \<open>
  \<^verbatim>\<open>
  sa = term_char_resolve(a, &na, &ca);
  sb = term_char_resolve(b, &nb, &cb);
  return na == nb && !memcmp(sa, sb, sizeof(*sa) * na);
  \<close>
  \<open>term_char_resolve\<close> is only declared in the header. It is a parameter here: it
  returns the memory found behind the returned pointer (as a list of 32-bit cells) and
  the length written to its second argument. \<open>memcmp\<close> over \<open>sizeof(*sa) * na\<close> bytes
  is zero exactly when the first \<open>na\<close> cells agree.
\<close>

definition term_char_equal ::
  "(term_char_t \<Rightarrow> 32 word list \<times> nat) \<Rightarrow> term_char_t \<Rightarrow> term_char_t \<Rightarrow> bool" where
  "term_char_equal resolve a b =
     (let (sa, na) = resolve a;
          (sb, nb) = resolve b
      in na = nb \<and> take na sa = take na sb)"

text \<open>
  \<^verbatim>\<open>
  if (term_char_is_allocated(ch))
          term_char_set(ch, 0);
  return TERM_CHAR_NULL;
  \<close>
  \<open>term_char_set\<close> is only declared in the header. Whatever it does to the program
  state is the parameter \<open>set_fn\<close>: a function from the two arguments and the state
  before the call to the returned handle and the state after it. The handle that
  \<open>term_char_set\<close> returns is dropped, as in the source.
\<close>

definition term_char_free ::
  "(term_char_t \<Rightarrow> 32 word \<Rightarrow> 's \<Rightarrow> term_char_t \<times> 's) \<Rightarrow> term_char_t \<Rightarrow> 's \<Rightarrow> term_char_t \<times> 's" where
  "term_char_free set_fn ch s =
     (let s' = (if term_char_is_allocated ch then snd (set_fn ch 0 s) else s)
      in (TERM_CHAR_NULL, s'))"

text \<open>\<^verbatim>\<open>static inline void term_char_freep(term_char_t *p) { term_char_free(*p); }\<close>\<close>

definition term_char_freep ::
  "(term_char_t \<Rightarrow> 32 word \<Rightarrow> 's \<Rightarrow> term_char_t \<times> 's) \<Rightarrow> term_char_t \<Rightarrow> 's \<Rightarrow> 's" where
  "term_char_freep set_fn p s = snd (term_char_free set_fn p s)"

subsection \<open>The handle operations that the header only declares\<close>

text \<open>
  Allocated character storage: a reference (the bits of an allocated handle) leads to
  the UCS-4 sequence it owns, or to nothing when no storage is live at that reference.
\<close>

type_synonym char_heap = "64 word \<Rightarrow> 32 word list option"

text \<open>
  Modelled from the spec: the body of \<open>term_char_resolve\<close> is missing (the header
  declares \<^verbatim>\<open>const uint32_t *term_char_resolve(term_char_t ch, size_t *s, term_charbuf_t *b)\<close>).
  The spec: "return a read-only pointer to the UCS-4 sequence and its length, using the
  caller-supplied charbuf as backing when the handle is inline"; an inline handle has
  "up to three 21-bit UCS-4 code points packed into the remaining 63 bits"; an allocated
  handle is "a reference to an owned, zero-terminated UCS-4 sequence of arbitrary
  length"; the zero value is the empty cell. The spec does not give the bit layout of the
  packing, so the unpacking of an inline value is the parameter \<open>unpack\<close>. The result
  is the memory behind the returned pointer (the sequence and its zero terminator) and
  the length. An allocated handle whose reference is not live has no defined resolution
  in C; the model gives it the empty sequence, and the theorems below assume liveness.
\<close>

definition term_char_resolve ::
  "(64 word \<Rightarrow> 32 word list) \<Rightarrow> char_heap \<Rightarrow> term_char_t \<Rightarrow> 32 word list \<times> nat" where
  "term_char_resolve unpack heap ch =
     (if term_char_is_null ch then ([0], 0)
      else if term_char_is_allocated ch then
        (case heap (raw_value ch) of
           Some cs \<Rightarrow> (cs @ [0], length cs)
         | None \<Rightarrow> ([0], 0))
      else (unpack (raw_value ch) @ [0], length (unpack (raw_value ch))))"

text \<open>
  Modelled from the spec: the body of \<open>term_char_dup\<close> is missing (the header declares
  \<^verbatim>\<open>term_char_t term_char_dup(term_char_t ch)\<close>). The spec: "deep-copy an
  allocated handle; no-op on inline"; "allocated handles are owned by whoever holds
  them; duplication copies". \<open>fresh\<close> is the reference the allocator hands out for
  the copy.
\<close>

definition term_char_dup ::
  "64 word \<Rightarrow> term_char_t \<Rightarrow> char_heap \<Rightarrow> term_char_t \<times> char_heap" where
  "term_char_dup fresh ch heap =
     (if term_char_is_allocated ch
      then (TERM_CHAR_INIT fresh, heap(fresh := heap (raw_value ch)))
      else (ch, heap))"

text \<open>
  Modelled from the spec: the body of \<open>term_char_set\<close> is missing (the header declares
  \<^verbatim>\<open>term_char_t term_char_set(term_char_t previous, uint32_t append_ucs4)\<close>).
  The spec: "free prev if allocated, return inline handle holding base (or CHAR_NULL if
  base==0)". The packing of an inline value is the parameter \<open>pack\<close>, as above.
\<close>

definition term_char_set ::
  "(32 word list \<Rightarrow> 64 word) \<Rightarrow> term_char_t \<Rightarrow> 32 word \<Rightarrow> char_heap \<Rightarrow> term_char_t \<times> char_heap" where
  "term_char_set pack previous append_ucs4 heap =
     (let heap' = (if term_char_is_allocated previous
                   then heap(raw_value previous := None) else heap)
      in (if append_ucs4 = 0 then TERM_CHAR_NULL else TERM_CHAR_INIT (pack [append_ucs4]),
          heap'))"

text \<open>
  What the allocator guarantees of the reference it returns: it is not the null
  pointer, it is aligned (low bit clear), and no live storage is at it.
\<close>

definition fresh_ref :: "char_heap \<Rightarrow> 64 word \<Rightarrow> bool" where
  "fresh_ref heap p = (p \<noteq> 0 \<and> p AND 0x1 = 0 \<and> heap p = None)"

section \<open>Sequence flags and charsets (term-internal.h, "Parsers")\<close>

text \<open>
  \<^verbatim>\<open>TERM_SEQ_FLAG_SPACE = (1U << 0), ... TERM_SEQ_FLAG_WHAT = (1U << 31)\<close>:
  values of type \<open>unsigned int\<close>, 32 bits.
\<close>

definition TERM_SEQ_FLAG_SPACE :: "32 word" where "TERM_SEQ_FLAG_SPACE = push_bit 0 1"
definition TERM_SEQ_FLAG_BANG :: "32 word" where "TERM_SEQ_FLAG_BANG = push_bit 1 1"
definition TERM_SEQ_FLAG_DQUOTE :: "32 word" where "TERM_SEQ_FLAG_DQUOTE = push_bit 2 1"
definition TERM_SEQ_FLAG_HASH :: "32 word" where "TERM_SEQ_FLAG_HASH = push_bit 3 1"
definition TERM_SEQ_FLAG_CASH :: "32 word" where "TERM_SEQ_FLAG_CASH = push_bit 4 1"
definition TERM_SEQ_FLAG_PERCENT :: "32 word" where "TERM_SEQ_FLAG_PERCENT = push_bit 5 1"
definition TERM_SEQ_FLAG_AND :: "32 word" where "TERM_SEQ_FLAG_AND = push_bit 6 1"
definition TERM_SEQ_FLAG_SQUOTE :: "32 word" where "TERM_SEQ_FLAG_SQUOTE = push_bit 7 1"
definition TERM_SEQ_FLAG_POPEN :: "32 word" where "TERM_SEQ_FLAG_POPEN = push_bit 8 1"
definition TERM_SEQ_FLAG_PCLOSE :: "32 word" where "TERM_SEQ_FLAG_PCLOSE = push_bit 9 1"
definition TERM_SEQ_FLAG_MULT :: "32 word" where "TERM_SEQ_FLAG_MULT = push_bit 10 1"
definition TERM_SEQ_FLAG_PLUS :: "32 word" where "TERM_SEQ_FLAG_PLUS = push_bit 11 1"
definition TERM_SEQ_FLAG_COMMA :: "32 word" where "TERM_SEQ_FLAG_COMMA = push_bit 12 1"
definition TERM_SEQ_FLAG_MINUS :: "32 word" where "TERM_SEQ_FLAG_MINUS = push_bit 13 1"
definition TERM_SEQ_FLAG_DOT :: "32 word" where "TERM_SEQ_FLAG_DOT = push_bit 14 1"
definition TERM_SEQ_FLAG_SLASH :: "32 word" where "TERM_SEQ_FLAG_SLASH = push_bit 15 1"
definition TERM_SEQ_FLAG_LT :: "32 word" where "TERM_SEQ_FLAG_LT = push_bit 28 1"
definition TERM_SEQ_FLAG_EQUAL :: "32 word" where "TERM_SEQ_FLAG_EQUAL = push_bit 29 1"
definition TERM_SEQ_FLAG_GT :: "32 word" where "TERM_SEQ_FLAG_GT = push_bit 30 1"
definition TERM_SEQ_FLAG_WHAT :: "32 word" where "TERM_SEQ_FLAG_WHAT = push_bit 31 1"

text \<open>
  The character each enumerator stands for, as its comment in the enum gives it
  (\<^verbatim>\<open>/* char: ! */\<close>), by character code.
\<close>

definition term_seq_flag_chars :: "(nat \<times> 32 word) list" where
  "term_seq_flag_chars =
     [(0x20, TERM_SEQ_FLAG_SPACE), (0x21, TERM_SEQ_FLAG_BANG), (0x22, TERM_SEQ_FLAG_DQUOTE),
      (0x23, TERM_SEQ_FLAG_HASH), (0x24, TERM_SEQ_FLAG_CASH), (0x25, TERM_SEQ_FLAG_PERCENT),
      (0x26, TERM_SEQ_FLAG_AND), (0x27, TERM_SEQ_FLAG_SQUOTE), (0x28, TERM_SEQ_FLAG_POPEN),
      (0x29, TERM_SEQ_FLAG_PCLOSE), (0x2A, TERM_SEQ_FLAG_MULT), (0x2B, TERM_SEQ_FLAG_PLUS),
      (0x2C, TERM_SEQ_FLAG_COMMA), (0x2D, TERM_SEQ_FLAG_MINUS), (0x2E, TERM_SEQ_FLAG_DOT),
      (0x2F, TERM_SEQ_FLAG_SLASH),
      (0x3C, TERM_SEQ_FLAG_LT), (0x3D, TERM_SEQ_FLAG_EQUAL), (0x3E, TERM_SEQ_FLAG_GT),
      (0x3F, TERM_SEQ_FLAG_WHAT)]"

text \<open>
  The rule the enum's comment asks for:
  \<^verbatim>\<open>/* these must be kept compatible to (1U << (ch - 0x20)) */\<close>
\<close>

definition seq_flag_of_char :: "nat \<Rightarrow> 32 word" where
  "seq_flag_of_char ch = push_bit (ch - 0x20) 1"

text \<open>
  The charset enum. A C enumerator without an initialiser is the previous one plus one,
  the first is 0.
\<close>

definition TERM_CHARSET_NONE :: nat where "TERM_CHARSET_NONE = 0"
definition TERM_CHARSET_ISO_LATIN1_SUPPLEMENTAL :: nat where
  "TERM_CHARSET_ISO_LATIN1_SUPPLEMENTAL = TERM_CHARSET_NONE + 1"
definition TERM_CHARSET_BRITISH_NRCS :: nat where
  "TERM_CHARSET_BRITISH_NRCS = TERM_CHARSET_ISO_LATIN1_SUPPLEMENTAL"
definition TERM_CHARSET_ISO_LATIN2_SUPPLEMENTAL :: nat where
  "TERM_CHARSET_ISO_LATIN2_SUPPLEMENTAL = TERM_CHARSET_BRITISH_NRCS + 1"
definition TERM_CHARSET_AMERICAN_NRCS :: nat where
  "TERM_CHARSET_AMERICAN_NRCS = TERM_CHARSET_ISO_LATIN2_SUPPLEMENTAL"
definition TERM_CHARSET_ISO_LATIN5_SUPPLEMENTAL :: nat where
  "TERM_CHARSET_ISO_LATIN5_SUPPLEMENTAL = TERM_CHARSET_AMERICAN_NRCS + 1"
definition TERM_CHARSET_ISO_GREEK_SUPPLEMENTAL :: nat where
  "TERM_CHARSET_ISO_GREEK_SUPPLEMENTAL = TERM_CHARSET_ISO_LATIN5_SUPPLEMENTAL + 1"
definition TERM_CHARSET_ISO_HEBREW_SUPPLEMENTAL :: nat where
  "TERM_CHARSET_ISO_HEBREW_SUPPLEMENTAL = TERM_CHARSET_ISO_GREEK_SUPPLEMENTAL + 1"
definition TERM_CHARSET_ISO_LATIN_CYRILLIC :: nat where
  "TERM_CHARSET_ISO_LATIN_CYRILLIC = TERM_CHARSET_ISO_HEBREW_SUPPLEMENTAL + 1"
definition TERM_CHARSET_96_CNT :: nat where
  "TERM_CHARSET_96_CNT = TERM_CHARSET_ISO_LATIN_CYRILLIC + 1"

section \<open>Histories (term-internal.h, "Histories")\<close>

text \<open>
  \<^verbatim>\<open>
  struct term_history {
          term_line *lines_first;
          term_line *lines_last;
          unsigned int n_lines;
          unsigned int max_lines;
  };
  \<close>
  The doubly linked list between \<open>lines_first\<close> and \<open>lines_last\<close> is the list
  \<open>lines\<close>, head first; the type of a line is left open. The two counters are
  \<open>unsigned int\<close>, 32 bits.
\<close>

record 'l term_history =
  lines :: "'l list"
  n_lines :: "32 word"
  max_lines :: "32 word"

text \<open>
  Modelled from the spec: the bodies of \<open>term_history_new\<close>, \<open>term_history_clear\<close>,
  \<open>term_history_trim\<close>, \<open>term_history_push\<close>, \<open>term_history_pop\<close> and
  \<open>term_history_peek\<close> are missing (the header only declares them). The spec does not
  say which cap a new history has: it is the parameter \<open>cap\<close>.
\<close>

definition term_history_new :: "32 word \<Rightarrow> 'l term_history" where
  "term_history_new cap = \<lparr>lines = [], n_lines = 0, max_lines = cap\<rparr>"

text \<open>
  Modelled from the spec: the body of \<open>term_history_push\<close> is missing. The spec:
  "append at tail; if \<open>n_lines == max_lines\<close>, drop head. Ownership transfers to
  history." The line is linked at the tail first; when the history was full the head is
  unlinked and the count stays, otherwise the count grows by one.
\<close>

definition term_history_push :: "'l term_history \<Rightarrow> 'l \<Rightarrow> 'l term_history" where
  "term_history_push history line =
     (let linked = lines history @ [line]
      in if n_lines history = max_lines history
         then history\<lparr>lines := tl linked\<rparr>
         else history\<lparr>lines := linked, n_lines := n_lines history + 1\<rparr>)"

text \<open>
  Modelled from the spec: the body of \<open>term_history_pop\<close> is missing. The spec:
  "detach tail, \<open>reserve(reserve_width, attr, age, old_width)\<close> so it is compatible
  with the current page width, return. Returns null if empty." \<open>reserve\<close> stands for
  that call of \<open>term_line_reserve\<close> on the detached line; \<open>None\<close> is the null
  pointer.
\<close>

definition term_history_pop ::
  "('l \<Rightarrow> 'l) \<Rightarrow> 'l term_history \<Rightarrow> 'l term_history \<times> 'l option" where
  "term_history_pop reserve history =
     (if lines history = [] then (history, None)
      else (history\<lparr>lines := butlast (lines history), n_lines := n_lines history - 1\<rparr>,
            Some (reserve (last (lines history)))))"

text \<open>
  Modelled from the spec: the body of \<open>term_history_peek\<close> is missing. The spec:
  "returns the count of lines that can be popped up to \<open>max\<close>; no side effects except
  possibly preparing cache."
\<close>

definition term_history_peek :: "'l term_history \<Rightarrow> 32 word \<Rightarrow> 'l term_history \<times> 32 word" where
  "term_history_peek history max_pop = (history, min max_pop (n_lines history))"

text \<open>
  Modelled from the spec: the body of \<open>term_history_trim\<close> is missing. The spec:
  "drop head entries until \<open>n_lines \<le> max\<close>". A loop on the count, which falls by
  one each round.
\<close>

function term_history_trim :: "'l term_history \<Rightarrow> 32 word \<Rightarrow> 'l term_history" where
  "term_history_trim history max_keep =
     (if max_keep < n_lines history
      then term_history_trim
             (history\<lparr>lines := tl (lines history), n_lines := n_lines history - 1\<rparr>) max_keep
      else history)"
  by pat_completeness simp

termination
proof (relation "measure (\<lambda>(history, max_keep). unat (n_lines history))")
  show "wf (measure (\<lambda>(history :: 'l term_history, max_keep :: 32 word). unat (n_lines history)))"
    by simp
next
  fix history :: "'l term_history" and max_keep :: "32 word"
  assume less: "max_keep < n_lines history"
  then have "n_lines history \<noteq> 0"
    by (metis word_not_simps(1))
  then have "unat (n_lines history - 1) < unat (n_lines history)"
    by (simp add: unat_minus_one unat_gt_0)
  then show "((history\<lparr>lines := tl (lines history), n_lines := n_lines history - 1\<rparr>, max_keep),
              (history, max_keep)) \<in> measure (\<lambda>(history, max_keep). unat (n_lines history))"
    by simp
qed

declare term_history_trim.simps [simp del]

text \<open>
  Modelled from the spec: the body of \<open>term_history_clear\<close> is missing. The spec:
  "drop all".
\<close>

definition term_history_clear :: "'l term_history \<Rightarrow> 'l term_history" where
  "term_history_clear history = history\<lparr>lines := [], n_lines := 0\<rparr>"

text \<open>The operations on a history, for runs of them.\<close>

datatype 'l history_op =
  Push 'l | Pop | Peek "32 word" | Trim "32 word" | Clear

text \<open>One operation; what \<open>pop\<close> and \<open>peek\<close> return is dropped.\<close>

fun history_step :: "('l \<Rightarrow> 'l) \<Rightarrow> 'l term_history \<Rightarrow> 'l history_op \<Rightarrow> 'l term_history" where
  "history_step reserve h (Push line) = term_history_push h line"
| "history_step reserve h Pop = fst (term_history_pop reserve h)"
| "history_step reserve h (Peek m) = fst (term_history_peek h m)"
| "history_step reserve h (Trim m) = term_history_trim h m"
| "history_step reserve h Clear = term_history_clear h"

text \<open>The states a history goes through, one after each operation of a run.\<close>

fun history_run ::
  "('l \<Rightarrow> 'l) \<Rightarrow> 'l term_history \<Rightarrow> 'l history_op list \<Rightarrow> 'l term_history list" where
  "history_run reserve h [] = []"
| "history_run reserve h (op # ops) =
     history_step reserve h op # history_run reserve (history_step reserve h op) ops"

text \<open>The count is the length of the list and does not exceed the cap.\<close>

definition history_inv :: "'l term_history \<Rightarrow> bool" where
  "history_inv h = (n_lines h \<le> max_lines h \<and> unat (n_lines h) = length (lines h))"

section \<open>UTF-8 (term-internal.h, "UTF-8")\<close>

text \<open>
  \<^verbatim>\<open>
  struct term_utf8 {
          uint32_t chars[5];
          uint32_t ucs4;
          unsigned int i_bytes : 3;
          unsigned int n_bytes : 3;
          unsigned int valid : 1;
  };
  \<close>
  \<open>chars\<close> is a list of five cells; the two 3-bit fields are 3-bit words.
\<close>

record term_utf8 =
  chars :: "32 word list"
  ucs4 :: "32 word"
  i_bytes :: "3 word"
  n_bytes :: "3 word"
  valid :: bool

text \<open>
  Modelled from the spec: the header has no initialiser of \<open>term_utf8\<close>. A decoder
  before its first byte is the zeroed structure.
\<close>

definition term_utf8_init :: term_utf8 where
  "term_utf8_init = \<lparr>chars = [0, 0, 0, 0, 0], ucs4 = 0, i_bytes = 0, n_bytes = 0, valid = False\<rparr>"

text \<open>
  Modelled from the spec: part of \<open>term_utf8_decode\<close>, whose body is missing. The
  length of the sequence a byte starts in standard UTF-8: \<open>110xxxxx\<close> starts two
  bytes, \<open>1110xxxx\<close> three, \<open>11110xxx\<close> four. Every other byte stands alone: a
  7-bit byte, or a byte that is no lead of a longer sequence (an invalid lead).
\<close>

definition utf8_seq_len :: "8 word \<Rightarrow> 3 word" where
  "utf8_seq_len byte =
     (if byte AND 0xE0 = 0xC0 then 2
      else if byte AND 0xF0 = 0xE0 then 3
      else if byte AND 0xF8 = 0xF0 then 4
      else 1)"

text \<open>
  Modelled from the spec: part of \<open>term_utf8_decode\<close>, whose body is missing. The
  payload bits of a lead byte.
\<close>

definition utf8_lead_bits :: "8 word \<Rightarrow> 32 word" where
  "utf8_lead_bits byte =
     (if byte AND 0xE0 = 0xC0 then ucast (byte AND 0x1F)
      else if byte AND 0xF0 = 0xE0 then ucast (byte AND 0x0F)
      else if byte AND 0xF8 = 0xF0 then ucast (byte AND 0x07)
      else ucast byte)"

text \<open>
  Modelled from the spec: part of \<open>term_utf8_decode\<close>, whose body is missing. After a
  sequence is handed out nothing is pending.
\<close>

definition utf8_done :: "term_utf8 \<Rightarrow> term_utf8" where
  "utf8_done p = p\<lparr>i_bytes := 0, n_bytes := 0, valid := False\<rparr>"

text \<open>
  Modelled from the spec: the body of \<open>term_utf8_decode\<close> is missing (the header
  declares \<^verbatim>\<open>const uint32_t *term_utf8_decode(term_utf8 *p, size_t *out_len, char c)\<close>).
  The spec: "stateful, one byte at a time. Input: current byte; output: resolved
  sequence (pointer to 1-5 code points) and its length, or need more. Contract: for any
  invalid lead or continuation byte, emit the code points decoded so far plus the
  offending byte re-interpreted as Latin-1 (code point 0x00..0xFF). Never fails; legacy
  7-bit/DEC data passes through unchanged. The decoder's scratch holds up to 4 bytes of
  a pending sequence; the 5th slot in \<open>chars[]\<close> is used for the replay of buffered
  bytes on error." The scenario "bytes 0xC3 0x28: decoder yields U+00C3 then U+0028"
  fixes what is replayed: the buffered bytes, each as a Latin-1 code point.
  The result is the new state and the sequence handed out; the empty sequence
  (\<open>out_len = 0\<close>) is "need more". \<open>i_bytes\<close> counts the buffered bytes of the
  pending sequence, \<open>n_bytes\<close> is its length, \<open>ucs4\<close> collects its code point.
\<close>

definition term_utf8_decode :: "term_utf8 \<Rightarrow> 8 word \<Rightarrow> term_utf8 \<times> 32 word list" where
  "term_utf8_decode p c =
     (if i_bytes p = 0 then
        (if utf8_seq_len c = 1 then (utf8_done p, [ucast c])
         else
           (p\<lparr>chars := (chars p)[0 := ucast c],
              ucs4 := push_bit (6 * (unat (utf8_seq_len c) - 1)) (utf8_lead_bits c),
              i_bytes := 1, n_bytes := utf8_seq_len c, valid := True\<rparr>, []))
      else if c AND 0xC0 = 0x80 then
        (let q = p\<lparr>chars := (chars p)[unat (i_bytes p) := ucast c],
                    ucs4 := ucs4 p OR
                      push_bit (6 * (unat (n_bytes p) - unat (i_bytes p) - 1)) (ucast (c AND 0x3F)),
                    i_bytes := i_bytes p + 1\<rparr>
         in if i_bytes q < n_bytes q then (q, []) else (utf8_done q, [ucs4 q]))
      else
        (let q = p\<lparr>chars := (chars p)[unat (i_bytes p) := ucast c],
                    i_bytes := i_bytes p + 1\<rparr>
         in (utf8_done q, take (unat (i_bytes q)) (chars q))))"

text \<open>Feeding bytes one at a time: the state at the end and what each byte handed out.\<close>

fun term_utf8_feed :: "term_utf8 \<Rightarrow> 8 word list \<Rightarrow> term_utf8 \<times> 32 word list list" where
  "term_utf8_feed p [] = (p, [])"
| "term_utf8_feed p (c # cs) =
     (let (q, out) = term_utf8_decode p c;
          (r, outs) = term_utf8_feed q cs
      in (r, out # outs))"

text \<open>
  Modelled from the spec: the body of \<open>term_utf8_encode\<close> is missing (the header
  declares \<^verbatim>\<open>size_t term_utf8_encode(char *out_utf8, uint32_t g)\<close>). The spec:
  "UCS-4 to up to 4 bytes, standard UTF-8. Invalid code points (surrogates, >0x10FFFF)
  encode as U+FFFD." The result is the bytes written; the returned size is their number.
  First, the code points that are valid.
\<close>

definition utf8_valid_ucs4 :: "32 word \<Rightarrow> bool" where
  "utf8_valid_ucs4 g = (\<not> (0xD800 \<le> g \<and> g \<le> 0xDFFF) \<and> g \<le> 0x10FFFF)"

text \<open>
  Modelled from the spec: part of \<open>term_utf8_encode\<close>, whose body is missing. A lead
  byte: the tag bits over the top bits of the code point.
\<close>

definition utf8_lead_byte :: "8 word \<Rightarrow> 32 word \<Rightarrow> 8 word" where
  "utf8_lead_byte tag x = tag OR ucast x"

text \<open>
  Modelled from the spec: part of \<open>term_utf8_encode\<close>, whose body is missing. A
  continuation byte: \<open>10xxxxxx\<close> over six bits of the code point.
\<close>

definition utf8_cont_byte :: "32 word \<Rightarrow> 8 word" where
  "utf8_cont_byte x = 0x80 OR ucast (x AND 0x3F)"

text \<open>
  Modelled from the spec: part of \<open>term_utf8_encode\<close>, whose body is missing. The
  bytes of a code point in standard UTF-8: one byte below 0x80, two below 0x800, three
  below 0x10000, four above.
\<close>

definition utf8_bytes :: "32 word \<Rightarrow> 8 word list" where
  "utf8_bytes g =
     (if g < 0x80 then [ucast g]
      else if g < 0x800 then
        [utf8_lead_byte 0xC0 (drop_bit 6 g), utf8_cont_byte g]
      else if g < 0x10000 then
        [utf8_lead_byte 0xE0 (drop_bit 12 g), utf8_cont_byte (drop_bit 6 g), utf8_cont_byte g]
      else
        [utf8_lead_byte 0xF0 (drop_bit 18 g), utf8_cont_byte (drop_bit 12 g),
         utf8_cont_byte (drop_bit 6 g), utf8_cont_byte g])"

text \<open>
  Modelled from the spec: \<open>term_utf8_encode\<close> itself, "invalid code points
  (surrogates, >0x10FFFF) encode as U+FFFD".
\<close>

definition term_utf8_encode :: "32 word \<Rightarrow> 8 word list" where
  "term_utf8_encode g = utf8_bytes (if utf8_valid_ucs4 g then g else 0xFFFD)"

text \<open>
  What holds of a decoder between bytes: \<open>chars\<close> has its five slots, and when a
  sequence is pending it is valid, still short of its length, and at most 4 bytes long.
\<close>

definition utf8_inv :: "term_utf8 \<Rightarrow> bool" where
  "utf8_inv p =
     (length (chars p) = 5 \<and>
      (if i_bytes p = 0 then True
       else valid p \<and> i_bytes p < n_bytes p \<and> n_bytes p \<le> 4))"

section \<open>Parsers (term-internal.h, "Parsers")\<close>

text \<open>
  The sequence types and the first command of the command enum; a C enumerator without
  an initialiser is the previous one plus one, the first is 0.
\<close>

definition TERM_SEQ_NONE :: "32 word" where "TERM_SEQ_NONE = 0"
definition TERM_SEQ_IGNORE :: "32 word" where "TERM_SEQ_IGNORE = TERM_SEQ_NONE + 1"
definition TERM_SEQ_GRAPHIC :: "32 word" where "TERM_SEQ_GRAPHIC = TERM_SEQ_IGNORE + 1"
definition TERM_SEQ_CONTROL :: "32 word" where "TERM_SEQ_CONTROL = TERM_SEQ_GRAPHIC + 1"
definition TERM_SEQ_ESCAPE :: "32 word" where "TERM_SEQ_ESCAPE = TERM_SEQ_CONTROL + 1"
definition TERM_SEQ_CSI :: "32 word" where "TERM_SEQ_CSI = TERM_SEQ_ESCAPE + 1"
definition TERM_SEQ_DCS :: "32 word" where "TERM_SEQ_DCS = TERM_SEQ_CSI + 1"
definition TERM_SEQ_OSC :: "32 word" where "TERM_SEQ_OSC = TERM_SEQ_DCS + 1"

definition TERM_CMD_NONE :: "32 word" where "TERM_CMD_NONE = 0"

text \<open>
  \<^verbatim>\<open>#define TERM_PARSER_ARG_MAX (16)\<close> and
  \<^verbatim>\<open>#define TERM_PARSER_ST_MAX (4096)\<close>
\<close>

definition TERM_PARSER_ARG_MAX :: nat where "TERM_PARSER_ARG_MAX = 16"
definition TERM_PARSER_ST_MAX :: nat where "TERM_PARSER_ST_MAX = 4096"

text \<open>
  \<^verbatim>\<open>
  struct term_seq {
          unsigned int type;
          unsigned int command;
          uint32_t terminator;
          unsigned int intermediates;
          unsigned int charset;
          unsigned int n_args;
          int args[TERM_PARSER_ARG_MAX];
          unsigned int n_st;
          char *st;
  };
  \<close>
  \<open>args\<close> is a list of \<open>TERM_PARSER_ARG_MAX\<close> cells of 32 bits (read as signed:
  \<open>-1\<close> is \<open>0xFFFFFFFF\<close>); \<open>st\<close> is the payload behind the pointer, \<open>n_st\<close>
  bytes. The field \<open>type\<close> is called \<open>seq_type\<close>.
\<close>

record term_seq =
  seq_type :: "32 word"
  command :: "32 word"
  terminator :: "32 word"
  intermediates :: "32 word"
  charset :: "32 word"
  n_args :: "32 word"
  args :: "32 word list"
  n_st :: "32 word"
  st :: "8 word list"

text \<open>
  Modelled from the spec: the states of the parser. The header keeps the state as
  \<open>unsigned int state\<close> and does not name its values; the names are those the spec
  lists.
\<close>

datatype parser_state =
  STATE_GROUND | STATE_ESCAPE | STATE_ESCAPE_INTERMEDIATE
  | STATE_CSI_ENTRY | STATE_CSI_PARAM | STATE_CSI_INTERMEDIATE | STATE_CSI_IGNORE
  | STATE_DCS_ENTRY | STATE_DCS_PARAM | STATE_DCS_INTERMEDIATE | STATE_DCS_PASSTHROUGH
  | STATE_DCS_IGNORE | STATE_OSC_STRING | STATE_SOS_PM_APC_STRING

text \<open>
  \<^verbatim>\<open>
  struct term_parser {
          term_seq seq;
          size_t st_alloc;
          unsigned int state;
          bool is_host : 1;
  };
  \<close>
\<close>

record term_parser =
  seq :: term_seq
  st_alloc :: "64 word"
  state :: parser_state
  is_host :: bool

text \<open>
  Modelled from the spec: the body of \<open>term_parser_feed\<close> is missing (the header
  declares \<^verbatim>\<open>int term_parser_feed(term_parser *parser, const term_seq **seq_out, uint32_t raw)\<close>),
  and so are the state machine's transition table and the command tables. The spec
  names the state machine (the VT500 state diagram) without giving its transitions, so
  what the machine does with an input in a state is the parameter \<open>table\<close>; the
  kinds of action are those the spec describes: parameter accumulation, intermediate
  characters, string accumulation, command resolution on the final byte, reset on CAN
  or SUB, single graphic and control characters, and the start of a sequence. An action
  that keeps the sequence open carries the state the machine moves to.
\<close>

datatype parser_action =
  ACTION_NONE parser_state
  | ACTION_EMIT "32 word"
  | ACTION_BEGIN parser_state "32 word"
  | ACTION_COLLECT parser_state
  | ACTION_PARAM parser_state
  | ACTION_PUT parser_state
  | ACTION_FINISH
  | ACTION_ABORT

text \<open>
  Modelled from the spec: "only allocation failures escape to the caller", "signaled via
  a negative return". The one failure of a feed is a growth of \<open>st\<close> that is
  refused.
\<close>

datatype parser_error = ENOMEM

text \<open>
  Modelled from the spec: the ignore states among the states it lists, and the one a
  sequence is routed to: "exceeding 16 args or 4096 string bytes routes the current
  sequence to IGNORE". A control sequence goes to \<open>CSI_IGNORE\<close>; a string sequence
  (DCS, OSC, SOS/PM/APC) goes to \<open>DCS_IGNORE\<close>, the ignore state that waits for ST.
\<close>

definition parser_ignoring :: "parser_state \<Rightarrow> bool" where
  "parser_ignoring s = (s = STATE_CSI_IGNORE \<or> s = STATE_DCS_IGNORE)"

definition parser_ignore_state :: "parser_state \<Rightarrow> parser_state" where
  "parser_ignore_state s =
     (if s = STATE_CSI_ENTRY \<or> s = STATE_CSI_PARAM \<or> s = STATE_CSI_INTERMEDIATE
         \<or> s = STATE_CSI_IGNORE
      then STATE_CSI_IGNORE else STATE_DCS_IGNORE)"

text \<open>
  Modelled from the spec: a sequence before its first input. "Missing/empty parameters
  are represented as \<open>-1\<close>"; nothing is collected yet.
\<close>

definition parser_clear :: term_seq where
  "parser_clear =
     \<lparr>seq_type = TERM_SEQ_NONE, command = TERM_CMD_NONE, terminator = 0, intermediates = 0,
      charset = 0, n_args = 0, args = replicate TERM_PARSER_ARG_MAX (- 1), n_st = 0, st = []\<rparr>"

text \<open>
  Modelled from the spec: the body of \<open>term_parser_new\<close> is missing. A new parser is
  in GROUND with an empty sequence and no string buffer yet.
\<close>

definition term_parser_new :: "bool \<Rightarrow> term_parser" where
  "term_parser_new host =
     \<lparr>seq = parser_clear, st_alloc = 0, state = STATE_GROUND, is_host = host\<rparr>"

text \<open>
  Modelled from the spec: "Intermediate characters (0x20-0x2F) accumulate into the
  \<open>intermediates\<close> bitmask [...]; the mapping is \<open>1U << (ch - 0x20)\<close> with
  semicolon/colon bits reserved. Private-marker characters \<open><=>?\<close> live in the high
  bits." Input outside 0x20..0x3F sets no bit.
\<close>

definition parser_collect :: "term_seq \<Rightarrow> 32 word \<Rightarrow> term_seq" where
  "parser_collect s raw =
     (if 0x20 \<le> raw \<and> raw \<le> 0x3F
      then s\<lparr>intermediates := intermediates s OR seq_flag_of_char (unat raw)\<rparr>
      else s)"

text \<open>
  Modelled from the spec: "up to 16 signed integer parameters; the DFA treats \<open>;\<close> as
  a separator and \<open>:\<close> as a sub-parameter separator (currently folded into the
  preceding parameter position). Missing/empty parameters are represented as \<open>-1\<close>",
  and the scenario "bytes \<open>ESC [ ; 5 H\<close>: \<open>n_args=2, args=[-1, 5]\<close>". \<open>n_args\<close>
  counts the parameter positions opened so far: the first parameter input opens the
  first, each \<open>;\<close> opens the next; a digit extends the number at the last position.
  The result is \<open>None\<close> when a \<open>;\<close> asks for a position beyond
  \<open>TERM_PARSER_ARG_MAX\<close>. The spec does not say what a number beyond the range of
  \<open>int\<close> becomes; here it wraps.
\<close>

definition parser_param :: "term_seq \<Rightarrow> 32 word \<Rightarrow> term_seq option" where
  "parser_param s raw =
     (let n = (if n_args s = 0 then 1 else n_args s) in
      if raw = 0x3B then
        (if unat n < TERM_PARSER_ARG_MAX then Some (s\<lparr>n_args := n + 1\<rparr>) else None)
      else if 0x30 \<le> raw \<and> raw \<le> 0x39 then
        (let old = args s ! (unat n - 1);
             new = (if old = - 1 then raw - 0x30 else old * 10 + (raw - 0x30))
         in Some (s\<lparr>n_args := n, args := (args s)[unat n - 1 := new]\<rparr>))
      else Some (s\<lparr>n_args := n\<rparr>))"

text \<open>
  Modelled from the spec: "bytes between the introducer and ST (String Terminator) or
  BEL-alias are appended to \<open>st[]\<close>; growth is amortized by doubling up to
  \<open>TERM_PARSER_ST_MAX = 4096\<close>; overflow transitions to IGNORE". The buffer grows
  when it is full: to twice its size, at least to the one byte more that is needed, at
  most to \<open>TERM_PARSER_ST_MAX\<close>. \<open>can_alloc\<close> says whether the allocator grants a
  buffer of a size. The result is \<open>Inl ENOMEM\<close> when the growth is refused,
  \<open>Inr None\<close> when the payload already has \<open>TERM_PARSER_ST_MAX\<close> bytes.
\<close>

definition parser_put ::
  "(64 word \<Rightarrow> bool) \<Rightarrow> term_parser \<Rightarrow> 32 word \<Rightarrow> parser_error + term_parser option" where
  "parser_put can_alloc parser raw =
     (let s = seq parser;
          s' = s\<lparr>n_st := n_st s + 1, st := st s @ [ucast raw]\<rparr>
      in if \<not> unat (n_st s) < TERM_PARSER_ST_MAX then Inr None
         else if unat (n_st s) < unat (st_alloc parser) then Inr (Some (parser\<lparr>seq := s'\<rparr>))
         else
           (let grown = min (of_nat TERM_PARSER_ST_MAX)
                          (max (2 * st_alloc parser) (ucast (n_st s) + 1))
            in if can_alloc grown
               then Inr (Some (parser\<lparr>seq := s', st_alloc := grown\<rparr>))
               else Inl ENOMEM))"

text \<open>
  Modelled from the spec (see \<open>parser_action\<close> above for what is missing). One input:
  \<^item> a single graphic or control character is a complete sequence of its own;
  \<^item> an introducer starts a sequence;
  \<^item> intermediates, parameters and string bytes accumulate and the machine moves on;
    "exceeding 16 args or 4096 string bytes routes the current sequence to IGNORE",
    where further input of the sequence is discarded and the state stays ("discarding
    further bytes but remaining within the sequence until ST is seen");
  \<^item> the final byte or terminator closes the sequence and hands it out, with the command
    the command table gives, or in an ignore state "with a synthetic
    \<open>command = TERM_CMD_NONE\<close>";
  \<^item> "feeding a CAN (0x18) or SUB (0x1A) aborts the current sequence back to GROUND and
    emits \<open>SEQ_IGNORE\<close>".
  \<open>lookup\<close> is the command table "keyed by (type, final byte, intermediates,
  private-marker bits, \<open>is_host\<close>)". The result is the error, or the parser after the
  input and the sequence handed out through \<open>seq_out\<close> (\<open>None\<close> is null).
\<close>

definition term_parser_feed ::
  "(parser_state \<Rightarrow> 32 word \<Rightarrow> parser_action) \<Rightarrow> (bool \<Rightarrow> term_seq \<Rightarrow> 32 word)
     \<Rightarrow> (64 word \<Rightarrow> bool) \<Rightarrow> term_parser \<Rightarrow> 32 word
     \<Rightarrow> parser_error + term_parser \<times> term_seq option" where
  "term_parser_feed table lookup can_alloc parser raw =
     (case table (state parser) raw of
        ACTION_NONE target \<Rightarrow>
          (if parser_ignoring (state parser) then Inr (parser, None)
           else Inr (parser\<lparr>state := target\<rparr>, None))
      | ACTION_EMIT ty \<Rightarrow>
          (let s = parser_clear\<lparr>seq_type := ty, terminator := raw\<rparr>;
               s' = s\<lparr>command := lookup (is_host parser) s\<rparr>
           in Inr (parser\<lparr>seq := s', state := STATE_GROUND\<rparr>, Some s'))
      | ACTION_BEGIN start ty \<Rightarrow>
          Inr (parser\<lparr>seq := parser_clear\<lparr>seq_type := ty\<rparr>, state := start\<rparr>, None)
      | ACTION_COLLECT target \<Rightarrow>
          (if parser_ignoring (state parser) then Inr (parser, None)
           else Inr (parser\<lparr>seq := parser_collect (seq parser) raw, state := target\<rparr>, None))
      | ACTION_PARAM target \<Rightarrow>
          (if parser_ignoring (state parser) then Inr (parser, None)
           else (case parser_param (seq parser) raw of
                   Some s \<Rightarrow> Inr (parser\<lparr>seq := s, state := target\<rparr>, None)
                 | None \<Rightarrow> Inr (parser\<lparr>state := parser_ignore_state (state parser)\<rparr>, None)))
      | ACTION_PUT target \<Rightarrow>
          (if parser_ignoring (state parser) then Inr (parser, None)
           else (case parser_put can_alloc parser raw of
                   Inl e \<Rightarrow> Inl e
                 | Inr (Some parser') \<Rightarrow> Inr (parser'\<lparr>state := target\<rparr>, None)
                 | Inr None \<Rightarrow> Inr (parser\<lparr>state := parser_ignore_state (state parser)\<rparr>, None)))
      | ACTION_FINISH \<Rightarrow>
          (let s = (seq parser)\<lparr>terminator := raw\<rparr>;
               s' = s\<lparr>command := (if parser_ignoring (state parser) then TERM_CMD_NONE
                                   else lookup (is_host parser) s)\<rparr>
           in Inr (parser\<lparr>seq := s', state := STATE_GROUND\<rparr>, Some s'))
      | ACTION_ABORT \<Rightarrow>
          (let s = parser_clear\<lparr>seq_type := TERM_SEQ_IGNORE, terminator := raw\<rparr>
           in Inr (parser\<lparr>seq := s, state := STATE_GROUND\<rparr>, Some s)))"

text \<open>
  A stream of inputs: after each input, the parser and what was handed out. A refused
  growth leaves the parser as it was, and the caller goes on.
\<close>

fun term_parser_run ::
  "(parser_state \<Rightarrow> 32 word \<Rightarrow> parser_action) \<Rightarrow> (bool \<Rightarrow> term_seq \<Rightarrow> 32 word)
     \<Rightarrow> (64 word \<Rightarrow> bool) \<Rightarrow> term_parser \<Rightarrow> 32 word list
     \<Rightarrow> (term_parser \<times> term_seq option) list" where
  "term_parser_run table lookup can_alloc parser [] = []"
| "term_parser_run table lookup can_alloc parser (raw # raws) =
     (case term_parser_feed table lookup can_alloc parser raw of
        Inl e \<Rightarrow> (parser, None) # term_parser_run table lookup can_alloc parser raws
      | Inr (parser', out) \<Rightarrow>
          (parser', out) # term_parser_run table lookup can_alloc parser' raws)"

text \<open>
  The bounds of a sequence: at most \<open>TERM_PARSER_ARG_MAX\<close> parameters in the
  \<open>TERM_PARSER_ARG_MAX\<close> cells of \<open>args\<close>, at most \<open>TERM_PARSER_ST_MAX\<close> payload
  bytes; and of a parser: the payload fits the buffer, and the buffer is at most
  \<open>TERM_PARSER_ST_MAX\<close> bytes.
\<close>

definition seq_bounded :: "term_seq \<Rightarrow> bool" where
  "seq_bounded s =
     (unat (n_args s) \<le> TERM_PARSER_ARG_MAX \<and> length (args s) = TERM_PARSER_ARG_MAX
      \<and> unat (n_st s) \<le> TERM_PARSER_ST_MAX \<and> length (st s) = unat (n_st s))"

definition parser_inv :: "term_parser \<Rightarrow> bool" where
  "parser_inv parser =
     (seq_bounded (seq parser)
      \<and> unat (n_st (seq parser)) \<le> unat (st_alloc parser)
      \<and> unat (st_alloc parser) \<le> TERM_PARSER_ST_MAX)"

section \<open>Properties of character handles\<close>

text \<open>
  C2. A handle is classified as allocated exactly when it is not the null handle and
  its low bit is clear. The null handle is not allocated although its low bit is
  clear, and no handle is both null and allocated.
\<close>

theorem term_char_is_allocated_iff:
  "(term_char_is_allocated h \<longleftrightarrow> h \<noteq> TERM_CHAR_NULL \<and> raw_value h AND 0x1 = 0)
   \<and> \<not> term_char_is_allocated TERM_CHAR_NULL
   \<and> raw_value TERM_CHAR_NULL AND 0x1 = 0
   \<and> \<not> (term_char_is_null h \<and> term_char_is_allocated h)"
  by (cases h) (simp add: term_char_is_allocated_def term_char_is_null_def
      TERM_CHAR_NULL_def TERM_CHAR_INIT_def)

text \<open>
  C10. \<open>term_char_free\<close> returns \<open>TERM_CHAR_NULL\<close> for every handle (null, inline
  or allocated) and whatever \<open>term_char_set\<close> does, so after
  \<^verbatim>\<open>ch = term_char_free(ch)\<close> the variable holds the empty-cell value, and
  freeing the returned handle again calls nothing and changes nothing.
\<close>

theorem term_char_free_returns_null:
  "fst (term_char_free set_fn h s) = TERM_CHAR_NULL
   \<and> term_char_is_null (fst (term_char_free set_fn h s))
   \<and> term_char_free set_fn (fst (term_char_free set_fn h s)) s' = (TERM_CHAR_NULL, s')"
  by (simp add: term_char_free_def term_char_is_allocated_def term_char_is_null_def
      TERM_CHAR_NULL_def TERM_CHAR_INIT_def)

text \<open>
  C1. Identity implies content equality: when \<open>term_char_same a b\<close> holds (the two
  64-bit values are equal), \<open>term_char_equal a b\<close> holds, whatever
  \<open>term_char_resolve\<close> computes. The converse fails. A handle that is not allocated
  is its own duplicate. An allocated handle \<open>h\<close> with live storage has a duplicate
  \<open>d\<close> at the fresh reference: \<open>term_char_equal h d\<close> holds and
  \<open>term_char_same h d\<close> does not; so two handles that are equal and not the same
  exist.
\<close>

theorem term_char_same_implies_equal:
  "(term_char_same a b \<longrightarrow> term_char_equal resolve a b)
   \<and> (\<not> term_char_is_allocated h \<longrightarrow>
        term_char_dup p h heap = (h, heap)
        \<and> term_char_equal (term_char_resolve unpack heap) h h
        \<and> term_char_same h h)
   \<and> (term_char_is_allocated h \<and> fresh_ref heap p \<and> heap (raw_value h) \<noteq> None \<longrightarrow>
        (case term_char_dup p h heap of (d, heap') \<Rightarrow>
           term_char_equal (term_char_resolve unpack heap') h d \<and> \<not> term_char_same h d))
   \<and> (\<exists>heap0 x y. term_char_equal (term_char_resolve unpack heap0) x y \<and> \<not> term_char_same x y)"
proof (intro conjI impI)
  assume "term_char_same a b"
  then show "term_char_equal resolve a b"
    by (cases a, cases b) (simp add: term_char_same_def term_char_equal_def split: prod.splits)
next
  assume "\<not> term_char_is_allocated h"
  then show "term_char_dup p h heap = (h, heap)"
    and "term_char_equal (term_char_resolve unpack heap) h h"
    and "term_char_same h h"
    by (simp_all add: term_char_dup_def term_char_equal_def term_char_same_def
        split: prod.splits)
next
  assume "term_char_is_allocated h \<and> fresh_ref heap p \<and> heap (raw_value h) \<noteq> None"
  then show "case term_char_dup p h heap of (d, heap') \<Rightarrow>
           term_char_equal (term_char_resolve unpack heap') h d \<and> \<not> term_char_same h d"
    by (auto simp add: term_char_dup_def fresh_ref_def term_char_equal_def
        term_char_resolve_def term_char_same_def TERM_CHAR_INIT_def term_char_is_allocated_def
        term_char_is_null_def split: prod.splits option.splits)
next
  let ?heap0 = "(Map.empty(0x1000 \<mapsto> [0x65, 0x301], 0x2000 \<mapsto> [0x65, 0x301])) :: char_heap"
  have "term_char_equal (term_char_resolve unpack ?heap0) (TERM_CHAR_INIT 0x1000) (TERM_CHAR_INIT 0x2000)
        \<and> \<not> term_char_same (TERM_CHAR_INIT 0x1000) (TERM_CHAR_INIT 0x2000)"
    by (simp add: term_char_equal_def term_char_resolve_def term_char_same_def TERM_CHAR_INIT_def
        term_char_is_allocated_def term_char_is_null_def)
  then show "\<exists>heap0 x y. term_char_equal (term_char_resolve unpack heap0) x y \<and> \<not> term_char_same x y"
    by blast
qed

theorem term_char_same_implies_equal_witness:
  "term_char_same (TERM_CHAR_INIT 0x1000) (TERM_CHAR_INIT 0x1000)
   \<and> term_char_equal (term_char_resolve (\<lambda>v. [ucast (drop_bit 1 v)]) (Map.empty(0x1000 \<mapsto> [0x65, 0x301])))
        (TERM_CHAR_INIT 0x1000) (TERM_CHAR_INIT 0x1000)
   \<and> \<not> term_char_is_allocated (TERM_CHAR_INIT 0x83)
   \<and> term_char_dup 0x2000 (TERM_CHAR_INIT 0x83) (Map.empty(0x1000 \<mapsto> [0x65, 0x301]))
       = (TERM_CHAR_INIT 0x83, Map.empty(0x1000 \<mapsto> [0x65, 0x301]))
   \<and> term_char_resolve (\<lambda>v. [ucast (drop_bit 1 v)]) (Map.empty(0x1000 \<mapsto> [0x65, 0x301]))
        (TERM_CHAR_INIT 0x83) = ([0x41, 0], 1)
   \<and> term_char_is_allocated (TERM_CHAR_INIT 0x1000)
   \<and> fresh_ref (Map.empty(0x1000 \<mapsto> [0x65, 0x301])) 0x2000
   \<and> (Map.empty(0x1000 \<mapsto> [0x65, 0x301])) (raw_value (TERM_CHAR_INIT 0x1000)) = Some [0x65, 0x301]
   \<and> term_char_dup 0x2000 (TERM_CHAR_INIT 0x1000) (Map.empty(0x1000 \<mapsto> [0x65, 0x301]))
       = (TERM_CHAR_INIT 0x2000, Map.empty(0x1000 \<mapsto> [0x65, 0x301], 0x2000 \<mapsto> [0x65, 0x301]))
   \<and> term_char_equal
        (term_char_resolve (\<lambda>v. [ucast (drop_bit 1 v)])
           (Map.empty(0x1000 \<mapsto> [0x65, 0x301], 0x2000 \<mapsto> [0x65, 0x301])))
        (TERM_CHAR_INIT 0x1000) (TERM_CHAR_INIT 0x2000)
   \<and> \<not> term_char_same (TERM_CHAR_INIT 0x1000) (TERM_CHAR_INIT 0x2000)"
  using term_char_same_implies_equal
    [of "TERM_CHAR_INIT 0x1000" "TERM_CHAR_INIT 0x1000"
        "term_char_resolve (\<lambda>v. [ucast (drop_bit 1 v)]) (Map.empty(0x1000 \<mapsto> [0x65, 0x301]))"
        "TERM_CHAR_INIT 0x1000" "0x2000" "Map.empty(0x1000 \<mapsto> [0x65, 0x301])"
        "\<lambda>v. [ucast (drop_bit 1 v)]"]
    term_char_same_implies_equal
    [of "TERM_CHAR_INIT 0x1000" "TERM_CHAR_INIT 0x1000"
        "term_char_resolve (\<lambda>v. [ucast (drop_bit 1 v)]) (Map.empty(0x1000 \<mapsto> [0x65, 0x301]))"
        "TERM_CHAR_INIT 0x83" "0x2000" "Map.empty(0x1000 \<mapsto> [0x65, 0x301])"
        "\<lambda>v. [ucast (drop_bit 1 v)]"]
  by (simp add: term_char_same_def fresh_ref_def term_char_dup_def term_char_resolve_def
      TERM_CHAR_INIT_def term_char_is_allocated_def term_char_is_null_def)

text \<open>
  C3. \<open>term_char_free\<close> on a handle that is not allocated (null or inline) calls
  nothing and leaves the state as it was: the result is the same for every
  \<open>term_char_set\<close>. On an allocated handle the state after the call is the state after
  \<open>term_char_set(h, 0)\<close>.
\<close>

theorem term_char_free_noop_on_inline:
  "(\<not> term_char_is_allocated h \<longrightarrow> term_char_free set_fn h s = (TERM_CHAR_NULL, s))
   \<and> (term_char_is_allocated h \<longrightarrow>
        term_char_free set_fn h s = (TERM_CHAR_NULL, snd (set_fn h 0 s)))"
  by (simp add: term_char_free_def)

theorem term_char_free_noop_on_inline_witness:
  "\<not> term_char_is_allocated (TERM_CHAR_INIT 0x83)
   \<and> term_char_free (term_char_set (\<lambda>cs. push_bit 1 (ucast (hd cs)) OR 1)) (TERM_CHAR_INIT 0x83)
         (Map.empty(0x1000 \<mapsto> [0x65, 0x301]))
       = (TERM_CHAR_NULL, Map.empty(0x1000 \<mapsto> [0x65, 0x301]))
   \<and> term_char_is_allocated (TERM_CHAR_INIT 0x1000)
   \<and> term_char_free (term_char_set (\<lambda>cs. push_bit 1 (ucast (hd cs)) OR 1)) (TERM_CHAR_INIT 0x1000)
         (Map.empty(0x1000 \<mapsto> [0x65, 0x301]))
       = (TERM_CHAR_NULL, Map.empty)"
  using term_char_free_noop_on_inline
      [of "TERM_CHAR_INIT 0x83" "term_char_set (\<lambda>cs. push_bit 1 (ucast (hd cs)) OR 1)"
          "Map.empty(0x1000 \<mapsto> [0x65, 0x301])"]
    term_char_free_noop_on_inline
      [of "TERM_CHAR_INIT 0x1000" "term_char_set (\<lambda>cs. push_bit 1 (ucast (hd cs)) OR 1)"
          "Map.empty(0x1000 \<mapsto> [0x65, 0x301])"]
  by (simp add: term_char_is_allocated_def term_char_is_null_def TERM_CHAR_INIT_def
      term_char_set_def)

section \<open>Properties of the sequence flags and the charset catalog\<close>

lemma intermediate_range:
  "{0x20..0x2F::nat} =
     {0x20, 0x21, 0x22, 0x23, 0x24, 0x25, 0x26, 0x27, 0x28, 0x29, 0x2A, 0x2B, 0x2C, 0x2D, 0x2E, 0x2F}"
  by auto arith

lemma private_marker_range: "{0x3C..0x3F::nat} = {0x3C, 0x3D, 0x3E, 0x3F}"
  by auto

lemmas term_seq_flag_defs =
  TERM_SEQ_FLAG_SPACE_def TERM_SEQ_FLAG_BANG_def TERM_SEQ_FLAG_DQUOTE_def
  TERM_SEQ_FLAG_HASH_def TERM_SEQ_FLAG_CASH_def TERM_SEQ_FLAG_PERCENT_def
  TERM_SEQ_FLAG_AND_def TERM_SEQ_FLAG_SQUOTE_def TERM_SEQ_FLAG_POPEN_def
  TERM_SEQ_FLAG_PCLOSE_def TERM_SEQ_FLAG_MULT_def TERM_SEQ_FLAG_PLUS_def
  TERM_SEQ_FLAG_COMMA_def TERM_SEQ_FLAG_MINUS_def TERM_SEQ_FLAG_DOT_def
  TERM_SEQ_FLAG_SLASH_def TERM_SEQ_FLAG_LT_def TERM_SEQ_FLAG_EQUAL_def
  TERM_SEQ_FLAG_GT_def TERM_SEQ_FLAG_WHAT_def

text \<open>
  C7. For every intermediate character \<open>ch\<close> in 0x20..0x2F the enumerator of \<open>ch\<close>
  is \<open>1U << (ch - 0x20)\<close>, from \<open>TERM_SEQ_FLAG_SPACE = 1 << 0\<close> to
  \<open>TERM_SEQ_FLAG_SLASH = 1 << 15\<close>. The colon (0x3A, bit 26) and the semicolon (0x3B,
  bit 27) have no enumerator, and no enumerator has their bit. The private markers
  \<open><\<close>, \<open>=\<close>, \<open>>\<close>, \<open>?\<close> (0x3C..0x3F) follow the same rule and are bits 28..31.
\<close>

theorem term_seq_flag_is_shifted_char:
  "(\<forall>ch\<in>{0x20..0x2F}. map_of term_seq_flag_chars ch = Some (seq_flag_of_char ch))
   \<and> TERM_SEQ_FLAG_SPACE = push_bit 0 1 \<and> TERM_SEQ_FLAG_SLASH = push_bit 15 1
   \<and> map_of term_seq_flag_chars 0x3A = None \<and> map_of term_seq_flag_chars 0x3B = None
   \<and> seq_flag_of_char 0x3A = push_bit 26 1 \<and> seq_flag_of_char 0x3B = push_bit 27 1
   \<and> seq_flag_of_char 0x3A \<notin> snd ` set term_seq_flag_chars
   \<and> seq_flag_of_char 0x3B \<notin> snd ` set term_seq_flag_chars
   \<and> (\<forall>ch\<in>{0x3C..0x3F}. map_of term_seq_flag_chars ch = Some (seq_flag_of_char ch))
   \<and> map (\<lambda>ch. map_of term_seq_flag_chars ch) [0x3C, 0x3D, 0x3E, 0x3F] =
       map (\<lambda>n. Some (push_bit n 1)) [28, 29, 30, 31]"
  unfolding intermediate_range private_marker_range
  by (simp add: term_seq_flag_chars_def seq_flag_of_char_def term_seq_flag_defs)

theorem term_seq_flag_is_shifted_char_witness:
  "(0x2A::nat) \<in> {0x20..0x2F} \<and> map_of term_seq_flag_chars 0x2A = Some 0x400
   \<and> TERM_SEQ_FLAG_MULT = 0x400
   \<and> (0x3F::nat) \<in> {0x3C..0x3F} \<and> map_of term_seq_flag_chars 0x3F = Some 0x80000000
   \<and> TERM_SEQ_FLAG_WHAT = 0x80000000"
  using term_seq_flag_is_shifted_char
  by (simp add: seq_flag_of_char_def TERM_SEQ_FLAG_MULT_def TERM_SEQ_FLAG_WHAT_def)

text \<open>
  C9. In the charset enum the British NRCS selector is the ISO Latin-1 Supplemental
  selector (both 1) and the American NRCS selector is the ISO Latin-2 Supplemental
  selector (both 2); the aliases take no number of their own, so the 96-cell catalog
  has 7 entries counting \<open>TERM_CHARSET_NONE\<close>.
\<close>

theorem term_charset_nrcs_aliases:
  "TERM_CHARSET_BRITISH_NRCS = TERM_CHARSET_ISO_LATIN1_SUPPLEMENTAL
   \<and> TERM_CHARSET_AMERICAN_NRCS = TERM_CHARSET_ISO_LATIN2_SUPPLEMENTAL
   \<and> TERM_CHARSET_BRITISH_NRCS = 1 \<and> TERM_CHARSET_AMERICAN_NRCS = 2
   \<and> TERM_CHARSET_96_CNT = 7"
  by (simp add: TERM_CHARSET_BRITISH_NRCS_def TERM_CHARSET_AMERICAN_NRCS_def
      TERM_CHARSET_ISO_LATIN2_SUPPLEMENTAL_def TERM_CHARSET_ISO_LATIN1_SUPPLEMENTAL_def
      TERM_CHARSET_NONE_def TERM_CHARSET_96_CNT_def TERM_CHARSET_ISO_LATIN_CYRILLIC_def
      TERM_CHARSET_ISO_HEBREW_SUPPLEMENTAL_def TERM_CHARSET_ISO_GREEK_SUPPLEMENTAL_def
      TERM_CHARSET_ISO_LATIN5_SUPPLEMENTAL_def)

section \<open>Properties of histories\<close>

lemma history_inv_new: "history_inv (term_history_new cap)"
  by (simp add: history_inv_def term_history_new_def)

lemma word_succ_le:
  fixes n m :: "32 word"
  assumes "n \<le> m" "n \<noteq> m"
  shows "n + 1 \<le> m \<and> unat (n + 1) = Suc (unat n)"
proof -
  from assms have less: "n < m" by simp
  then have le: "n + 1 \<le> m" by (rule inc_le)
  from less have a: "unat n < unat m" by (simp add: word_less_nat_alt)
  have b: "unat m < 2 ^ LENGTH(32)" by (rule unsigned_less)
  have c: "unat (1::32 word) = 1" by simp
  from a b c have "unat n + unat (1::32 word) < 2 ^ LENGTH(32)"
    by linarith
  then have "unat (n + 1) = unat n + unat (1::32 word)"
    by (rule unat_add_lem [THEN iffD1])
  with le c show ?thesis by simp
qed


lemma word_pred_le:
  fixes n m :: "32 word"
  assumes "n \<le> m" "n \<noteq> 0"
  shows "n - 1 \<le> m \<and> unat (n - 1) = unat n - 1"
proof -
  from assms(2) have dec: "unat (n - 1) = unat n - 1"
    by (simp add: unat_minus_one)
  then have "n - 1 \<le> n"
    by (simp add: word_le_nat_alt)
  then have "n - 1 \<le> m"
    using assms(1) by (rule order_trans)
  with dec show ?thesis by simp
qed

lemma history_inv_push: "history_inv h \<Longrightarrow> history_inv (term_history_push h line)"
  using word_succ_le [of "n_lines h" "max_lines h"]
  by (auto simp add: history_inv_def term_history_push_def Let_def)

lemma history_inv_pop: "history_inv h \<Longrightarrow> history_inv (fst (term_history_pop reserve h))"
proof (cases "lines h = []")
  case True
  then show "history_inv h \<Longrightarrow> ?thesis" by (simp add: term_history_pop_def)
next
  case False
  assume inv: "history_inv h"
  with False have nz: "n_lines h \<noteq> 0"
    by (auto simp add: history_inv_def)
  from inv have "n_lines h \<le> max_lines h"
    by (simp add: history_inv_def)
  from word_pred_le [OF this nz] inv False show ?thesis
    by (simp add: history_inv_def term_history_pop_def)
qed

lemma history_inv_trim: "history_inv h \<Longrightarrow> history_inv (term_history_trim h m)"
proof (induction h m rule: term_history_trim.induct)
  case (1 history max_keep)
  show ?case
  proof (cases "max_keep < n_lines history")
    case True
    then have nz: "n_lines history \<noteq> 0"
      by (metis word_not_simps(1))
    from "1.prems" have "n_lines history \<le> max_lines history"
      by (simp add: history_inv_def)
    from word_pred_le [OF this nz] "1.prems"
    have "history_inv (history\<lparr>lines := tl (lines history), n_lines := n_lines history - 1\<rparr>)"
      by (simp add: history_inv_def)
    with True "1.IH" show ?thesis
      by (simp add: term_history_trim.simps [of history])
  next
    case False
    with "1.prems" show ?thesis
      by (simp add: term_history_trim.simps [of history])
  qed
qed

lemma term_history_trim_le: "n_lines (term_history_trim h m) \<le> m"
proof (induction h m rule: term_history_trim.induct)
  case (1 history max_keep)
  show ?case
  proof (cases "max_keep < n_lines history")
    case True
    with "1.IH" show ?thesis
      by (simp add: term_history_trim.simps [of history])
  next
    case False
    then show ?thesis
      by (simp add: term_history_trim.simps [of history])
  qed
qed

lemma history_inv_step: "history_inv h \<Longrightarrow> history_inv (history_step reserve h op)"
  by (cases op)
    (simp_all add: history_inv_push history_inv_pop history_inv_trim,
      simp_all add: history_inv_def term_history_peek_def term_history_clear_def)

lemma history_inv_run:
  "history_inv h \<Longrightarrow> \<forall>h' \<in> set (history_run reserve h ops). history_inv h'"
  by (induction ops arbitrary: h) (auto intro: history_inv_step)

text \<open>
  C8. The count of a history never exceeds its cap: every operation keeps
  \<open>n_lines \<le> max_lines\<close> (and the count equal to the length of the list), so it
  holds after each operation of every run from a new history. \<open>term_history_push\<close> on
  a full history (\<open>n_lines = max_lines\<close>) drops the head as part of appending the new
  line at the tail, and the count stays.
\<close>

theorem term_history_count_within_cap:
  "(history_inv h \<longrightarrow>
      history_inv (history_step reserve h op)
      \<and> n_lines (history_step reserve h op) \<le> max_lines (history_step reserve h op))
   \<and> (\<forall>h' \<in> set (history_run reserve (term_history_new cap) ops). n_lines h' \<le> max_lines h')
   \<and> (history_inv h \<and> n_lines h = max_lines h \<longrightarrow>
        lines (term_history_push h line) = tl (lines h @ [line])
        \<and> n_lines (term_history_push h line) = n_lines h
        \<and> n_lines (term_history_push h line) \<le> max_lines (term_history_push h line))"
proof (intro conjI impI)
  assume "history_inv h"
  then have "history_inv (history_step reserve h op)"
    by (rule history_inv_step)
  then show "history_inv (history_step reserve h op)"
    and "n_lines (history_step reserve h op) \<le> max_lines (history_step reserve h op)"
    by (simp_all add: history_inv_def)
next
  have "\<forall>h' \<in> set (history_run reserve (term_history_new cap) ops). history_inv h'"
    using history_inv_new by (rule history_inv_run)
  then show "\<forall>h' \<in> set (history_run reserve (term_history_new cap) ops). n_lines h' \<le> max_lines h'"
    by (simp add: history_inv_def)
next
  assume full: "history_inv h \<and> n_lines h = max_lines h"
  then show "lines (term_history_push h line) = tl (lines h @ [line])"
    and "n_lines (term_history_push h line) = n_lines h"
    and "n_lines (term_history_push h line) \<le> max_lines (term_history_push h line)"
    by (simp_all add: term_history_push_def)
qed

theorem term_history_count_within_cap_witness:
  "history_inv \<lparr>lines = [1, 2 :: nat], n_lines = 2, max_lines = 2\<rparr>
   \<and> term_history_push \<lparr>lines = [1, 2 :: nat], n_lines = 2, max_lines = 2\<rparr> 3
       = \<lparr>lines = [2, 3], n_lines = 2, max_lines = 2\<rparr>
   \<and> map n_lines (history_run id (term_history_new 2) [Push (1::nat), Push 2, Push 3, Pop, Trim 0])
       = [1, 2, 2, 1, 0]
   \<and> map lines (history_run id (term_history_new 2) [Push (1::nat), Push 2, Push 3, Pop, Trim 0])
       = [[1], [1, 2], [2, 3], [2], []]
   \<and> list_all (\<lambda>h'. n_lines h' \<le> max_lines h')
        (history_run id (term_history_new 2) [Push (1::nat), Push 2, Push 3, Pop, Trim 0])"
  using term_history_count_within_cap
    [of "\<lparr>lines = [1, 2 :: nat], n_lines = 2, max_lines = 2\<rparr>" id "Push 3" 2
        "[Push (1::nat), Push 2, Push 3, Pop, Trim 0]" 3]
  by (simp add: history_inv_def term_history_new_def term_history_push_def term_history_pop_def
      term_history_trim.simps)

section \<open>Properties of the UTF-8 codec\<close>

lemma lt8_cases: "n < 8 \<Longrightarrow> n \<in> {0, 1, 2, 3, 4, 5, 6, 7::nat}"
  by auto

lemma lt32_cases:
  "n < 32 \<Longrightarrow> n \<in> {0, 1, 2, 3, 4, 5, 6, 7, 8, 9, 10, 11, 12, 13, 14, 15, 16, 17, 18, 19, 20,
     21, 22, 23, 24, 25, 26, 27, 28, 29, 30, 31::nat}"
  by auto arith

lemma byte_eqI:
  fixes a b :: "8 word"
  assumes "\<And>n. n \<in> {0, 1, 2, 3, 4, 5, 6, 7::nat} \<Longrightarrow> bit a n = bit b n"
  shows "a = b"
proof (rule bit_word_eqI)
  fix n assume "n < LENGTH(8)"
  then have "n < 8" by simp
  then show "bit a n = bit b n" by (rule assms [OF lt8_cases])
qed

lemma ucs4_eqI:
  fixes a b :: "32 word"
  assumes "\<And>n. n \<in> {0, 1, 2, 3, 4, 5, 6, 7, 8, 9, 10, 11, 12, 13, 14, 15, 16, 17, 18, 19, 20,
     21, 22, 23, 24, 25, 26, 27, 28, 29, 30, 31::nat} \<Longrightarrow> bit a n = bit b n"
  shows "a = b"
proof (rule bit_word_eqI)
  fix n assume "n < LENGTH(32)"
  then have "n < 32" by simp
  then show "bit a n = bit b n" by (rule assms [OF lt32_cases])
qed

lemma ucs4_small_bits:
  fixes x :: "32 word"
  assumes "x < 2 ^ k" "bit x n"
  shows "n < k"
  using assms
  by (metis bit_take_bit_iff less_mask_eq take_bit_eq_mask)

lemma utf8_cont_byte_tag [simp]: "utf8_cont_byte x AND 0xC0 = 0x80"
  unfolding utf8_cont_byte_def
  by (rule byte_eqI) (auto simp add: bit_simps)

lemma utf8_cont_byte_bits [simp]:
  "(ucast (utf8_cont_byte x AND 0x3F) :: 32 word) = x AND 0x3F"
  unfolding utf8_cont_byte_def
  by (rule ucs4_eqI) (auto simp add: bit_simps)

lemma utf8_seq_len_ascii:
  assumes "\<not> bit c 7"
  shows "utf8_seq_len c = 1"
proof -
  have "c AND 0xE0 \<noteq> 0xC0"
  proof
    assume "c AND 0xE0 = 0xC0"
    then have "bit (c AND 0xE0) 7 = bit (0xC0 :: 8 word) 7" by simp
    with assms show False by (simp add: bit_simps)
  qed
  moreover have "c AND 0xF0 \<noteq> 0xE0"
  proof
    assume "c AND 0xF0 = 0xE0"
    then have "bit (c AND 0xF0) 7 = bit (0xE0 :: 8 word) 7" by simp
    with assms show False by (simp add: bit_simps)
  qed
  moreover have "c AND 0xF8 \<noteq> 0xF0"
  proof
    assume "c AND 0xF8 = 0xF0"
    then have "bit (c AND 0xF8) 7 = bit (0xF0 :: 8 word) 7" by simp
    with assms show False by (simp add: bit_simps)
  qed
  ultimately show ?thesis by (simp add: utf8_seq_len_def)
qed

lemma utf8_ascii_byte:
  fixes g :: "32 word"
  assumes "g < 0x80"
  shows "utf8_seq_len (ucast g) = 1" and "(ucast (ucast g :: 8 word) :: 32 word) = g"
proof -
  have b: "\<And>n. bit g n \<Longrightarrow> n < 7"
    using assms ucs4_small_bits [of g 7] by simp
  then have "\<not> bit (ucast g :: 8 word) 7"
    by (auto simp add: bit_simps)
  then show "utf8_seq_len (ucast g) = 1" by (rule utf8_seq_len_ascii)
  show "(ucast (ucast g :: 8 word) :: 32 word) = g"
    by (rule ucs4_eqI) (auto simp add: bit_simps dest: b)
qed

lemma utf8_lead2:
  fixes x :: "32 word"
  assumes b: "\<And>n. bit x n \<Longrightarrow> n < 5"
  shows "utf8_seq_len (utf8_lead_byte 0xC0 x) = 2"
    and "utf8_lead_bits (utf8_lead_byte 0xC0 x) = x"
proof -
  have tag: "utf8_lead_byte 0xC0 x AND 0xE0 = 0xC0"
    unfolding utf8_lead_byte_def
    by (rule byte_eqI) (auto simp add: bit_simps dest: b)
  have bits: "(ucast (utf8_lead_byte 0xC0 x AND 0x1F) :: 32 word) = x"
    unfolding utf8_lead_byte_def
    by (rule ucs4_eqI) (auto simp add: bit_simps dest: b)
  from tag show "utf8_seq_len (utf8_lead_byte 0xC0 x) = 2"
    by (simp add: utf8_seq_len_def)
  from tag bits show "utf8_lead_bits (utf8_lead_byte 0xC0 x) = x"
    by (simp add: utf8_lead_bits_def)
qed

lemma utf8_lead3:
  fixes x :: "32 word"
  assumes b: "\<And>n. bit x n \<Longrightarrow> n < 4"
  shows "utf8_seq_len (utf8_lead_byte 0xE0 x) = 3"
    and "utf8_lead_bits (utf8_lead_byte 0xE0 x) = x"
proof -
  have no2: "utf8_lead_byte 0xE0 x AND 0xE0 \<noteq> 0xC0"
  proof
    assume "utf8_lead_byte 0xE0 x AND 0xE0 = 0xC0"
    then have "bit (utf8_lead_byte 0xE0 x AND 0xE0) 5 = bit (0xC0 :: 8 word) 5" by simp
    then show False by (simp add: utf8_lead_byte_def bit_simps)
  qed
  have tag: "utf8_lead_byte 0xE0 x AND 0xF0 = 0xE0"
    unfolding utf8_lead_byte_def
    by (rule byte_eqI) (auto simp add: bit_simps dest: b)
  have bits: "(ucast (utf8_lead_byte 0xE0 x AND 0x0F) :: 32 word) = x"
    unfolding utf8_lead_byte_def
    by (rule ucs4_eqI) (auto simp add: bit_simps dest: b)
  from no2 tag show "utf8_seq_len (utf8_lead_byte 0xE0 x) = 3"
    by (simp add: utf8_seq_len_def)
  from no2 tag bits show "utf8_lead_bits (utf8_lead_byte 0xE0 x) = x"
    by (simp add: utf8_lead_bits_def)
qed

lemma utf8_lead4:
  fixes x :: "32 word"
  assumes b: "\<And>n. bit x n \<Longrightarrow> n < 3"
  shows "utf8_seq_len (utf8_lead_byte 0xF0 x) = 4"
    and "utf8_lead_bits (utf8_lead_byte 0xF0 x) = x"
proof -
  have no2: "utf8_lead_byte 0xF0 x AND 0xE0 \<noteq> 0xC0"
  proof
    assume "utf8_lead_byte 0xF0 x AND 0xE0 = 0xC0"
    then have "bit (utf8_lead_byte 0xF0 x AND 0xE0) 5 = bit (0xC0 :: 8 word) 5" by simp
    then show False by (simp add: utf8_lead_byte_def bit_simps)
  qed
  have no3: "utf8_lead_byte 0xF0 x AND 0xF0 \<noteq> 0xE0"
  proof
    assume "utf8_lead_byte 0xF0 x AND 0xF0 = 0xE0"
    then have "bit (utf8_lead_byte 0xF0 x AND 0xF0) 4 = bit (0xE0 :: 8 word) 4" by simp
    then show False by (simp add: utf8_lead_byte_def bit_simps)
  qed
  have tag: "utf8_lead_byte 0xF0 x AND 0xF8 = 0xF0"
    unfolding utf8_lead_byte_def
    by (rule byte_eqI) (auto simp add: bit_simps dest: b)
  have bits: "(ucast (utf8_lead_byte 0xF0 x AND 0x07) :: 32 word) = x"
    unfolding utf8_lead_byte_def
    by (rule ucs4_eqI) (auto simp add: bit_simps dest: b)
  from no2 no3 tag show "utf8_seq_len (utf8_lead_byte 0xF0 x) = 4"
    by (simp add: utf8_seq_len_def)
  from no2 no3 tag bits show "utf8_lead_bits (utf8_lead_byte 0xF0 x) = x"
    by (simp add: utf8_lead_bits_def)
qed

lemma ucs4_low6: "(g :: 32 word) AND 0x3F = take_bit 6 g"
  by (simp add: take_bit_eq_mask mask_eq_exp_minus_1)

lemma ucs4_recombine2:
  fixes g :: "32 word"
  shows "push_bit 6 (drop_bit 6 g) OR (g AND 0x3F) = g"
  unfolding ucs4_low6
  by (rule bit_word_eqI) (auto simp add: bit_simps)

lemma ucs4_recombine3:
  fixes g :: "32 word"
  shows "push_bit 12 (drop_bit 12 g) OR push_bit 6 (drop_bit 6 g AND 0x3F) OR (g AND 0x3F) = g"
  unfolding ucs4_low6
proof (rule bit_word_eqI)
  fix n :: nat
  assume "n < LENGTH(32)"
  then have n32: "n < 32" by simp
  consider "n < 6" | "6 \<le> n" "n < 12" | "12 \<le> n" by linarith
  then show "bit (push_bit 12 (drop_bit 12 g) OR push_bit 6 (take_bit 6 (drop_bit 6 g))
                    OR take_bit 6 g) n = bit g n"
    using n32 by cases (auto simp add: bit_simps)
qed

lemma ucs4_recombine4:
  fixes g :: "32 word"
  shows "push_bit 18 (drop_bit 18 g) OR push_bit 12 (drop_bit 12 g AND 0x3F)
           OR push_bit 6 (drop_bit 6 g AND 0x3F) OR (g AND 0x3F) = g"
  unfolding ucs4_low6
proof (rule bit_word_eqI)
  fix n :: nat
  assume "n < LENGTH(32)"
  then have n32: "n < 32" by simp
  consider "n < 6" | "6 \<le> n" "n < 12" | "12 \<le> n" "n < 18" | "18 \<le> n" by linarith
  then show "bit (push_bit 18 (drop_bit 18 g) OR push_bit 12 (take_bit 6 (drop_bit 12 g))
                    OR push_bit 6 (take_bit 6 (drop_bit 6 g)) OR take_bit 6 g) n = bit g n"
    using n32 by cases (auto simp add: bit_simps)
qed

lemma ucs4_recombine3_simp:
  fixes g :: "32 word"
  shows "push_bit 12 (drop_bit 12 g) OR (push_bit 6 (drop_bit 6 g) AND 0xFC0) OR (g AND 0x3F) = g"
  using ucs4_recombine3 [of g] by simp

lemma ucs4_recombine4_simp:
  fixes g :: "32 word"
  shows "push_bit 18 (drop_bit 18 g) OR (push_bit 12 (drop_bit 12 g) AND 0x3F000)
           OR (push_bit 6 (drop_bit 6 g) AND 0xFC0) OR (g AND 0x3F) = g"
  using ucs4_recombine4 [of g] by simp

lemma utf8_roundtrip1:
  assumes "g < 0x80"
  shows "term_utf8_feed term_utf8_init (utf8_bytes g) = (utf8_done term_utf8_init, [[g]])"
  using assms utf8_ascii_byte [OF assms]
  by (simp add: utf8_bytes_def term_utf8_decode_def term_utf8_init_def)

lemma utf8_roundtrip2:
  assumes "\<not> g < 0x80" "g < 0x800"
  shows "snd (term_utf8_feed term_utf8_init (utf8_bytes g)) = [[], [g]]"
proof -
  have b: "\<And>n. bit (drop_bit 6 g) n \<Longrightarrow> n < 5"
    using assms(2) ucs4_small_bits [of g 11] by (fastforce simp add: bit_simps)
  show ?thesis
    using assms
    by (simp add: utf8_bytes_def term_utf8_decode_def term_utf8_init_def Let_def utf8_done_def
        utf8_lead2 [OF b] ucs4_recombine2)
qed

lemma utf8_roundtrip3:
  assumes "\<not> g < 0x800" "g < 0x10000"
  shows "snd (term_utf8_feed term_utf8_init (utf8_bytes g)) = [[], [], [g]]"
proof -
  have b: "\<And>n. bit (drop_bit 12 g) n \<Longrightarrow> n < 4"
    using assms(2) ucs4_small_bits [of g 16] by (fastforce simp add: bit_simps)
  from assms(1) have "\<not> g < 0x80" by (simp add: word_less_nat_alt)
  then show ?thesis
    using assms
    by (simp add: utf8_bytes_def term_utf8_decode_def term_utf8_init_def Let_def utf8_done_def
        utf8_lead3 [OF b] ucs4_recombine3_simp or.assoc)
qed

lemma utf8_roundtrip4:
  assumes "\<not> g < 0x10000" "g \<le> 0x10FFFF"
  shows "snd (term_utf8_feed term_utf8_init (utf8_bytes g)) = [[], [], [], [g]]"
proof -
  from assms(2) have "g < 2 ^ 21" by (simp add: word_less_nat_alt word_le_nat_alt)
  then have b: "\<And>n. bit (drop_bit 18 g) n \<Longrightarrow> n < 3"
    using ucs4_small_bits [of g 21] by (fastforce simp add: bit_simps)
  from assms(1) have "\<not> g < 0x80" "\<not> g < 0x800" by (simp_all add: word_less_nat_alt)
  then show ?thesis
    using assms
    by (simp add: utf8_bytes_def term_utf8_decode_def term_utf8_init_def Let_def utf8_done_def
        utf8_lead4 [OF b] ucs4_recombine4_simp or.assoc)
qed

lemma utf8_inv_init: "utf8_inv term_utf8_init"
  by (simp add: utf8_inv_def term_utf8_init_def)

lemma utf8_seq_len_range: "utf8_seq_len c \<in> {1, 2, 3, 4}"
  by (simp add: utf8_seq_len_def)

lemma utf8_pending_bound:
  fixes i n :: "3 word"
  assumes "i < n" "n \<le> 4"
  shows "unat i < 4" and "unat (i + 1) = Suc (unat i)" and "i + 1 \<le> n"
proof -
  from assms have "unat i < unat n" "unat n \<le> 4"
    by (simp_all add: word_less_nat_alt word_le_nat_alt)
  then show a: "unat i < 4" by simp
  have "unat i + unat (1 :: 3 word) < 2 ^ LENGTH(3)"
    using a by simp
  then have "unat (i + 1) = unat i + unat (1 :: 3 word)"
    by (rule unat_add_lem [THEN iffD1])
  then show "unat (i + 1) = Suc (unat i)" by simp
  from assms(1) show "i + 1 \<le> n" by (rule inc_le)
qed

lemma utf8_decode_inv:
  assumes "utf8_inv p"
  shows "utf8_inv (fst (term_utf8_decode p c))"
proof (cases "i_bytes p = 0")
  case True
  with assms utf8_seq_len_range [of c] show ?thesis
    by (auto simp add: term_utf8_decode_def utf8_inv_def utf8_done_def)
next
  case False
  with assms have b: "i_bytes p < n_bytes p" "n_bytes p \<le> 4" "valid p" "length (chars p) = 5"
    by (simp_all add: utf8_inv_def)
  from False b show ?thesis
    by (simp add: term_utf8_decode_def utf8_inv_def utf8_done_def Let_def)
qed

lemma utf8_decode_out:
  assumes "utf8_inv p"
  shows "length (snd (term_utf8_decode p c)) \<le> 4"
    and "i_bytes p = 0 \<Longrightarrow> utf8_seq_len c = 1 \<Longrightarrow> snd (term_utf8_decode p c) = [ucast c]"
    and "i_bytes p = 0 \<Longrightarrow> utf8_seq_len c \<noteq> 1 \<Longrightarrow> snd (term_utf8_decode p c) = []"
    and "i_bytes p \<noteq> 0 \<Longrightarrow> c AND 0xC0 \<noteq> 0x80 \<Longrightarrow>
           snd (term_utf8_decode p c) = take (unat (i_bytes p)) (chars p) @ [ucast c]"
    and "i_bytes p \<noteq> 0 \<Longrightarrow> c AND 0xC0 = 0x80 \<Longrightarrow> length (snd (term_utf8_decode p c)) \<le> 1"
proof -
  show "i_bytes p = 0 \<Longrightarrow> utf8_seq_len c = 1 \<Longrightarrow> snd (term_utf8_decode p c) = [ucast c]"
    by (simp add: term_utf8_decode_def)
  show "i_bytes p = 0 \<Longrightarrow> utf8_seq_len c \<noteq> 1 \<Longrightarrow> snd (term_utf8_decode p c) = []"
    by (simp add: term_utf8_decode_def)
  show cont: "i_bytes p \<noteq> 0 \<Longrightarrow> c AND 0xC0 = 0x80 \<Longrightarrow> length (snd (term_utf8_decode p c)) \<le> 1"
    by (simp add: term_utf8_decode_def Let_def)
  show err: "snd (term_utf8_decode p c) = take (unat (i_bytes p)) (chars p) @ [ucast c]"
    if "i_bytes p \<noteq> 0" "c AND 0xC0 \<noteq> 0x80"
  proof -
    from that(1) assms have b: "i_bytes p < n_bytes p" "n_bytes p \<le> 4" "length (chars p) = 5"
      by (simp_all add: utf8_inv_def)
    from utf8_pending_bound [OF b(1,2)] b(3) that show ?thesis
      by (simp add: term_utf8_decode_def Let_def utf8_done_def take_Suc_conv_app_nth)
  qed
  show "length (snd (term_utf8_decode p c)) \<le> 4"
  proof (cases "i_bytes p = 0")
    case True
    then show ?thesis by (simp add: term_utf8_decode_def)
  next
    case False
    with assms have b: "i_bytes p < n_bytes p" "n_bytes p \<le> 4" "length (chars p) = 5"
      by (simp_all add: utf8_inv_def)
    show ?thesis
    proof (cases "c AND 0xC0 = 0x80")
      case True
      with cont False show ?thesis by simp
    next
      case False
      with err \<open>i_bytes p \<noteq> 0\<close> utf8_pending_bound(1) [OF b(1,2)] b(3) show ?thesis
        by simp
    qed
  qed
qed

lemma utf8_feed_inv:
  "utf8_inv p \<Longrightarrow>
     utf8_inv (fst (term_utf8_feed p cs))
     \<and> length (snd (term_utf8_feed p cs)) = length cs
     \<and> (\<forall>out \<in> set (snd (term_utf8_feed p cs)). length out \<le> 4)"
proof (induction cs arbitrary: p)
  case Nil
  then show ?case by simp
next
  case (Cons c cs)
  from Cons.prems have "utf8_inv (fst (term_utf8_decode p c))"
    by (rule utf8_decode_inv)
  from Cons.IH [OF this] utf8_decode_out(1) [OF Cons.prems, of c] show ?case
    by (simp add: split_beta)
qed

lemma utf8_decode_lead:
  assumes "utf8_inv p" "i_bytes p = 0" "utf8_seq_len l \<noteq> 1"
  shows "snd (term_utf8_decode p l) = []"
    and "utf8_inv (fst (term_utf8_decode p l))"
    and "i_bytes (fst (term_utf8_decode p l)) = 1"
    and "n_bytes (fst (term_utf8_decode p l)) = utf8_seq_len l"
    and "take 1 (chars (fst (term_utf8_decode p l))) = [ucast l]"
proof -
  from assms(1) have len: "length (chars p) = 5" by (simp add: utf8_inv_def)
  from assms(1) show "utf8_inv (fst (term_utf8_decode p l))" by (rule utf8_decode_inv)
  from assms len show "snd (term_utf8_decode p l) = []"
    and "i_bytes (fst (term_utf8_decode p l)) = 1"
    and "n_bytes (fst (term_utf8_decode p l)) = utf8_seq_len l"
    and "take 1 (chars (fst (term_utf8_decode p l))) = [ucast l]"
    by (simp_all add: term_utf8_decode_def take_Suc_conv_app_nth)
qed

lemma utf8_decode_cont:
  assumes "utf8_inv p" "i_bytes p \<noteq> 0" "c AND 0xC0 = 0x80"
    and more: "Suc (unat (i_bytes p)) < unat (n_bytes p)"
    and buf: "take (unat (i_bytes p)) (chars p) = map ucast bs"
  shows "snd (term_utf8_decode p c) = []"
    and "utf8_inv (fst (term_utf8_decode p c))"
    and "i_bytes (fst (term_utf8_decode p c)) \<noteq> 0"
    and "unat (i_bytes (fst (term_utf8_decode p c))) = Suc (unat (i_bytes p))"
    and "n_bytes (fst (term_utf8_decode p c)) = n_bytes p"
    and "take (unat (i_bytes (fst (term_utf8_decode p c)))) (chars (fst (term_utf8_decode p c)))
           = map ucast (bs @ [c])"
proof -
  from assms(1,2) have b: "i_bytes p < n_bytes p" "n_bytes p \<le> 4" "length (chars p) = 5"
    by (simp_all add: utf8_inv_def)
  note pb = utf8_pending_bound [OF b(1,2)]
  from more pb(2) have less: "i_bytes p + 1 < n_bytes p"
    by (simp add: word_less_nat_alt)
  from pb(2) have nz: "i_bytes p + 1 \<noteq> 0"
    by (metis Zero_not_Suc unat_0)
  from assms(1) show "utf8_inv (fst (term_utf8_decode p c))" by (rule utf8_decode_inv)
  from assms(2,3) less show "snd (term_utf8_decode p c) = []"
    by (simp add: term_utf8_decode_def Let_def)
  from assms(2,3) less nz show "i_bytes (fst (term_utf8_decode p c)) \<noteq> 0"
    by (simp add: term_utf8_decode_def Let_def)
  from assms(2,3) less pb(2) show "unat (i_bytes (fst (term_utf8_decode p c))) = Suc (unat (i_bytes p))"
    by (simp add: term_utf8_decode_def Let_def)
  from assms(2,3) less show "n_bytes (fst (term_utf8_decode p c)) = n_bytes p"
    by (simp add: term_utf8_decode_def Let_def)
  from assms(2,3) less pb b(3) buf
  show "take (unat (i_bytes (fst (term_utf8_decode p c)))) (chars (fst (term_utf8_decode p c)))
           = map ucast (bs @ [c])"
    by (simp add: term_utf8_decode_def Let_def take_Suc_conv_app_nth)
qed

lemma utf8_feed_broken:
  assumes "utf8_inv p" "i_bytes p \<noteq> 0"
    and "take (unat (i_bytes p)) (chars p) = map ucast bs"
    and "\<forall>c \<in> set cs. c AND 0xC0 = 0x80"
    and "unat (i_bytes p) + length cs < unat (n_bytes p)"
    and "b AND 0xC0 \<noteq> 0x80"
  shows "snd (term_utf8_feed p (cs @ [b])) = replicate (length cs) [] @ [map ucast (bs @ cs @ [b])]"
  using assms
proof (induction cs arbitrary: p bs)
  case Nil
  from utf8_decode_out(4) [OF Nil.prems(1,2,6)] Nil.prems(3) show ?case
    by (simp add: split_beta)
next
  case (Cons c cs)
  let ?q = "fst (term_utf8_decode p c)"
  from Cons.prems have c: "c AND 0xC0 = 0x80" and more: "Suc (unat (i_bytes p)) < unat (n_bytes p)"
    by simp_all
  note step = utf8_decode_cont [OF Cons.prems(1,2) c more Cons.prems(3)]
  from Cons.prems step have "unat (i_bytes ?q) + length cs < unat (n_bytes ?q)"
    by simp
  with Cons.prems step
  have "snd (term_utf8_feed ?q (cs @ [b])) =
          replicate (length cs) [] @ [map ucast ((bs @ [c]) @ cs @ [b])]"
    by (intro Cons.IH) simp_all
  with step(1) show ?case
    by (simp add: split_beta)
qed

lemma utf8_feed_broken_sequence:
  assumes "utf8_seq_len l \<noteq> 1"
    and "\<forall>c \<in> set cs. c AND 0xC0 = 0x80"
    and "Suc (length cs) < unat (utf8_seq_len l)"
    and "b AND 0xC0 \<noteq> 0x80"
  shows "snd (term_utf8_feed term_utf8_init (l # cs @ [b])) =
           replicate (Suc (length cs)) [] @ [map ucast (l # cs @ [b])]"
proof -
  let ?q = "fst (term_utf8_decode term_utf8_init l)"
  have i0: "i_bytes term_utf8_init = 0" by (simp add: term_utf8_init_def)
  note lead = utf8_decode_lead [OF utf8_inv_init i0 assms(1)]
  from lead assms
  have "snd (term_utf8_feed ?q (cs @ [b])) = replicate (length cs) [] @ [map ucast ([l] @ cs @ [b])]"
    by (intro utf8_feed_broken) simp_all
  with lead(1) show ?thesis
    by (simp add: split_beta)
qed

text \<open>
  C4. The decoder never fails. From the zeroed state, after any bytes, every byte
  either asks for more (hands out nothing) or hands out at most 5 code points; at most
  4 bytes are pending and every slot written or read lies within the 5 slots of
  \<open>chars\<close>. A byte that cannot start a longer sequence, met while nothing is
  pending, is handed out as its Latin-1 code point. A byte that does not continue the
  pending sequence ends it: the buffered bytes and the offending byte are handed out,
  each as its Latin-1 code point; so a lead byte, fewer continuation bytes than it asks
  for, and an offending byte come out together as their Latin-1 code points, and
  0xC3 0x28 yields U+00C3 then U+0028.
\<close>

theorem term_utf8_decode_never_fails:
  "utf8_inv term_utf8_init
   \<and> (utf8_inv p \<longrightarrow>
        utf8_inv (fst (term_utf8_decode p c))
        \<and> length (snd (term_utf8_decode p c)) \<le> 5
        \<and> unat (i_bytes p) \<le> 4
        \<and> unat (i_bytes p) < length (chars p)
        \<and> length (chars (fst (term_utf8_decode p c))) = 5
        \<and> (i_bytes p = 0 \<and> utf8_seq_len c = 1 \<longrightarrow> snd (term_utf8_decode p c) = [ucast c])
        \<and> (i_bytes p \<noteq> 0 \<and> c AND 0xC0 \<noteq> 0x80 \<longrightarrow>
             snd (term_utf8_decode p c) = take (unat (i_bytes p)) (chars p) @ [ucast c]))
   \<and> utf8_inv (fst (term_utf8_feed term_utf8_init bytes))
   \<and> (\<forall>out \<in> set (snd (term_utf8_feed term_utf8_init bytes)). length out \<le> 5)
   \<and> (utf8_seq_len l \<noteq> 1 \<and> (\<forall>k \<in> set cs. k AND 0xC0 = 0x80)
        \<and> Suc (length cs) < unat (utf8_seq_len l) \<and> b AND 0xC0 \<noteq> 0x80 \<longrightarrow>
        snd (term_utf8_feed term_utf8_init (l # cs @ [b])) =
          replicate (Suc (length cs)) [] @ [map ucast (l # cs @ [b])])
   \<and> snd (term_utf8_feed term_utf8_init [0xC3, 0x28]) = [[], [0xC3, 0x28]]"
proof (intro conjI impI)
  show "utf8_inv term_utf8_init" by (rule utf8_inv_init)
next
  assume inv: "utf8_inv p"
  then show "utf8_inv (fst (term_utf8_decode p c))" by (rule utf8_decode_inv)
  then show "length (chars (fst (term_utf8_decode p c))) = 5" by (simp add: utf8_inv_def)
  from utf8_decode_out(1) [OF inv, of c] show "length (snd (term_utf8_decode p c)) \<le> 5"
    by simp
  have pending: "unat (i_bytes p) < 4"
  proof (cases "i_bytes p = 0")
    case True
    then show ?thesis by simp
  next
    case False
    with inv have "i_bytes p < n_bytes p" "n_bytes p \<le> 4" by (simp_all add: utf8_inv_def)
    then show ?thesis by (rule utf8_pending_bound(1))
  qed
  then show "unat (i_bytes p) \<le> 4" by simp
  from pending inv show "unat (i_bytes p) < length (chars p)" by (simp add: utf8_inv_def)
  show "snd (term_utf8_decode p c) = [ucast c]" if "i_bytes p = 0 \<and> utf8_seq_len c = 1"
    using that utf8_decode_out(2) [OF inv] by simp
  show "snd (term_utf8_decode p c) = take (unat (i_bytes p)) (chars p) @ [ucast c]"
    if "i_bytes p \<noteq> 0 \<and> c AND 0xC0 \<noteq> 0x80"
    using that utf8_decode_out(4) [OF inv] by simp
next
  from utf8_feed_inv [OF utf8_inv_init, of bytes]
  show "utf8_inv (fst (term_utf8_feed term_utf8_init bytes))"
    and "\<forall>out \<in> set (snd (term_utf8_feed term_utf8_init bytes)). length out \<le> 5"
    by fastforce+
next
  assume "utf8_seq_len l \<noteq> 1 \<and> (\<forall>k \<in> set cs. k AND 0xC0 = 0x80)
        \<and> Suc (length cs) < unat (utf8_seq_len l) \<and> b AND 0xC0 \<noteq> 0x80"
  then show "snd (term_utf8_feed term_utf8_init (l # cs @ [b])) =
          replicate (Suc (length cs)) [] @ [map ucast (l # cs @ [b])]"
    by (intro utf8_feed_broken_sequence) simp_all
next
  show "snd (term_utf8_feed term_utf8_init [0xC3, 0x28]) = [[], [0xC3, 0x28]]"
    by (simp add: term_utf8_decode_def term_utf8_init_def utf8_seq_len_def utf8_lead_bits_def
        utf8_done_def Let_def)
qed

theorem term_utf8_decode_never_fails_witness:
  "utf8_inv (fst (term_utf8_decode term_utf8_init 0xC3))
   \<and> i_bytes (fst (term_utf8_decode term_utf8_init 0xC3)) = 1
   \<and> snd (term_utf8_decode (fst (term_utf8_decode term_utf8_init 0xC3)) 0x28) = [0xC3, 0x28]
   \<and> utf8_seq_len 0xFF = 1
   \<and> snd (term_utf8_decode term_utf8_init 0xFF) = [0xFF]
   \<and> utf8_seq_len 0xE2 = 3
   \<and> snd (term_utf8_feed term_utf8_init [0xE2, 0x82, 0x41]) = [[], [], [0xE2, 0x82, 0x41]]
   \<and> snd (term_utf8_feed term_utf8_init [0xE2, 0x82, 0xAC]) = [[], [], [0x20AC]]
   \<and> list_all (\<lambda>out. length out \<le> 5)
        (snd (term_utf8_feed term_utf8_init [0xF0, 0x9F, 0x98, 0x41, 0xFF, 0x80]))"
  using term_utf8_decode_never_fails
      [of "fst (term_utf8_decode term_utf8_init 0xC3)" "0x28"
          "[0xF0, 0x9F, 0x98, 0x41, 0xFF, 0x80]" "0xE2" "[0x82]" "0x41"]
    term_utf8_decode_never_fails [of term_utf8_init "0xFF" "[]" "0xE2" "[0x82]" "0x41"]
  by (simp add: term_utf8_decode_def term_utf8_init_def utf8_seq_len_def utf8_lead_bits_def
      utf8_done_def Let_def utf8_inv_def)

text \<open>
  C5. Round trip: for every valid UCS-4 code point \<open>c\<close> (no surrogate, at most
  0x10FFFF) the bytes of \<open>term_utf8_encode c\<close>, fed one at a time to a decoder in its
  zeroed state, hand out nothing until the last byte, which hands out exactly \<open>c\<close>,
  and nothing stays pending. \<open>term_utf8_encode\<close> writes 1 to 4 bytes, and every
  invalid code point is written as U+FFFD (EF BF BD).
\<close>

theorem term_utf8_roundtrip:
  "(utf8_valid_ucs4 c \<longrightarrow>
      snd (term_utf8_feed term_utf8_init (term_utf8_encode c)) =
        replicate (length (term_utf8_encode c) - 1) [] @ [[c]])
   \<and> 1 \<le> length (term_utf8_encode c) \<and> length (term_utf8_encode c) \<le> 4
   \<and> (\<not> utf8_valid_ucs4 c \<longrightarrow> term_utf8_encode c = term_utf8_encode 0xFFFD)
   \<and> term_utf8_encode 0xFFFD = [0xEF, 0xBF, 0xBD]"
proof (intro conjI impI)
  assume v: "utf8_valid_ucs4 c"
  then have enc: "term_utf8_encode c = utf8_bytes c" and top: "c \<le> 0x10FFFF"
    by (simp_all add: term_utf8_encode_def utf8_valid_ucs4_def)
  consider "c < 0x80" | "\<not> c < 0x80" "c < 0x800" | "\<not> c < 0x800" "c < 0x10000"
    | "\<not> c < 0x10000"
    by blast
  then show "snd (term_utf8_feed term_utf8_init (term_utf8_encode c)) =
        replicate (length (term_utf8_encode c) - 1) [] @ [[c]]"
  proof cases
    case 1
    from utf8_roundtrip1 [OF 1] 1 show ?thesis
      by (simp add: enc utf8_bytes_def)
  next
    case 2
    from utf8_roundtrip2 [OF 2] 2 show ?thesis
      by (simp add: enc utf8_bytes_def)
  next
    case 3
    then have "\<not> c < 0x80" by (simp add: word_less_nat_alt)
    with utf8_roundtrip3 [OF 3] 3 show ?thesis
      by (simp add: enc utf8_bytes_def)
  next
    case 4
    then have "\<not> c < 0x80" "\<not> c < 0x800" by (simp_all add: word_less_nat_alt)
    with utf8_roundtrip4 [OF 4 top] 4 show ?thesis
      by (simp add: enc utf8_bytes_def)
  qed
next
  show "1 \<le> length (term_utf8_encode c)" and "length (term_utf8_encode c) \<le> 4"
    by (simp_all add: term_utf8_encode_def utf8_bytes_def)
next
  assume "\<not> utf8_valid_ucs4 c"
  then show "term_utf8_encode c = term_utf8_encode 0xFFFD"
    by (simp add: term_utf8_encode_def)
next
  show "term_utf8_encode 0xFFFD = [0xEF, 0xBF, 0xBD]"
    by (simp add: term_utf8_encode_def utf8_valid_ucs4_def utf8_bytes_def utf8_lead_byte_def
        utf8_cont_byte_def)
qed

theorem term_utf8_roundtrip_witness:
  "utf8_valid_ucs4 0x20AC
   \<and> term_utf8_encode 0x20AC = [0xE2, 0x82, 0xAC]
   \<and> snd (term_utf8_feed term_utf8_init [0xE2, 0x82, 0xAC]) = [[], [], [0x20AC]]
   \<and> \<not> utf8_valid_ucs4 0xD800
   \<and> term_utf8_encode 0xD800 = [0xEF, 0xBF, 0xBD]
   \<and> \<not> utf8_valid_ucs4 0x110000
   \<and> term_utf8_encode 0x110000 = [0xEF, 0xBF, 0xBD]"
  using term_utf8_roundtrip [of "0x20AC"] term_utf8_roundtrip [of "0xD800"]
    term_utf8_roundtrip [of "0x110000"]
  by (simp add: utf8_valid_ucs4_def term_utf8_encode_def utf8_bytes_def utf8_lead_byte_def
      utf8_cont_byte_def)

section \<open>Properties of the parser\<close>

lemma unat32_Suc:
  fixes n :: "32 word"
  assumes "unat n < 4096"
  shows "unat (n + 1) = Suc (unat n)"
proof -
  have "unat n + unat (1 :: 32 word) < 2 ^ LENGTH(32)"
    using assms by simp
  then have "unat (n + 1) = unat n + unat (1 :: 32 word)"
    by (rule unat_add_lem [THEN iffD1])
  then show ?thesis by simp
qed

lemma unat64_ucast_Suc:
  fixes n :: "32 word"
  assumes "unat n < 4096"
  shows "unat (ucast n + 1 :: 64 word) = Suc (unat n)"
proof -
  have u: "unat (ucast n :: 64 word) = unat n"
    by (simp add: unsigned_ucast_eq take_bit_nat_eq_self unsigned_less [of n, THEN less_trans])
  then have "unat (ucast n :: 64 word) + unat (1 :: 64 word) < 2 ^ LENGTH(64)"
    using assms by simp
  then have "unat (ucast n + 1 :: 64 word) = unat (ucast n :: 64 word) + unat (1 :: 64 word)"
    by (rule unat_add_lem [THEN iffD1])
  with u show ?thesis by simp
qed

lemma unat_word_min: "unat (min a b) = min (unat a) (unat b)"
  by (simp add: min_def word_le_nat_alt)

lemma unat_word_max: "unat (max a b) = max (unat a) (unat b)"
  by (simp add: max_def word_le_nat_alt)

lemma seq_bounded_clear: "seq_bounded (parser_clear\<lparr>seq_type := ty, terminator := t, command := c\<rparr>)"
  by (simp add: seq_bounded_def parser_clear_def TERM_PARSER_ARG_MAX_def)

lemma seq_bounded_clear': "seq_bounded (parser_clear\<lparr>seq_type := ty\<rparr>)"
  "seq_bounded (parser_clear\<lparr>seq_type := ty, terminator := t\<rparr>)" "seq_bounded parser_clear"
  by (simp_all add: seq_bounded_def parser_clear_def TERM_PARSER_ARG_MAX_def)

lemma seq_bounded_collect: "seq_bounded s \<Longrightarrow> seq_bounded (parser_collect s raw)"
  by (simp add: seq_bounded_def parser_collect_def)

lemma seq_bounded_param:
  assumes "seq_bounded s" "parser_param s raw = Some s'"
  shows "seq_bounded s'" and "n_st s' = n_st s" and "st s' = st s"
proof -
  let ?n = "if n_args s = 0 then 1 else n_args s"
  from assms(1) have n: "unat ?n \<le> 16"
    by (simp add: seq_bounded_def TERM_PARSER_ARG_MAX_def)
  have inc: "unat ?n < 16 \<Longrightarrow> unat (?n + 1) \<le> 16"
    using unat32_Suc [of ?n] by simp
  from assms n inc show "seq_bounded s'" and "n_st s' = n_st s" and "st s' = st s"
    by (auto simp add: parser_param_def Let_def seq_bounded_def TERM_PARSER_ARG_MAX_def
        split: if_splits)
qed

lemma parser_inv_put:
  assumes "parser_inv p" "parser_put can_alloc p raw = Inr (Some p')"
  shows "parser_inv p'" and "state p' = state p"
proof -
  let ?s = "seq p"
  let ?grown = "min (of_nat TERM_PARSER_ST_MAX) (max (2 * st_alloc p) (ucast (n_st ?s) + 1)) :: 64 word"
  from assms(2) have less: "unat (n_st ?s) < 4096"
    by (simp add: parser_put_def Let_def TERM_PARSER_ST_MAX_def split: if_splits)
  note inc = unat32_Suc [OF less] unat64_ucast_Suc [OF less]
  have g1: "unat ?grown \<le> 4096"
    by (simp add: unat_word_min TERM_PARSER_ST_MAX_def)
  have g2: "Suc (unat (n_st ?s)) \<le> unat ?grown"
    using less inc by (simp add: unat_word_min unat_word_max TERM_PARSER_ST_MAX_def)
  from assms less inc g1 g2 show "parser_inv p'" and "state p' = state p"
    by (auto simp add: parser_put_def Let_def parser_inv_def seq_bounded_def
        TERM_PARSER_ST_MAX_def TERM_PARSER_ARG_MAX_def split: if_splits)
qed

lemma parser_inv_new: "parser_inv (term_parser_new host)"
  by (simp add: parser_inv_def term_parser_new_def seq_bounded_def parser_clear_def
      TERM_PARSER_ARG_MAX_def)

lemma parser_inv_seq_update:
  assumes "parser_inv p" "seq_bounded s" "n_st s = n_st (seq p)"
  shows "parser_inv (p\<lparr>seq := s, state := t\<rparr>)"
  using assms by (simp add: parser_inv_def)

lemma parser_inv_state_update: "parser_inv (p\<lparr>state := t\<rparr>) = parser_inv p"
  by (simp add: parser_inv_def)

lemma parser_inv_fresh_seq:
  assumes "parser_inv p" "seq_bounded s" "n_st s = 0"
  shows "parser_inv (p\<lparr>seq := s, state := t\<rparr>)"
  using assms by (simp add: parser_inv_def)

lemma parser_inv_feed:
  assumes inv: "parser_inv p"
    and feed: "term_parser_feed table lookup can_alloc p raw = Inr (q, out)"
  shows "parser_inv q" and "out = None \<or> out = Some (seq q)"
proof -
  have "parser_inv q \<and> (out = None \<or> out = Some (seq q))"
  proof (cases "table (state p) raw")
    case (ACTION_NONE target)
    with inv feed show ?thesis
      by (auto simp add: term_parser_feed_def parser_inv_def split: if_splits)
  next
    case (ACTION_EMIT ty)
    with feed have q: "q = p\<lparr>seq := parser_clear\<lparr>seq_type := ty, terminator := raw,
        command := lookup (is_host p) (parser_clear\<lparr>seq_type := ty, terminator := raw\<rparr>)\<rparr>,
        state := STATE_GROUND\<rparr>" and "out = Some (seq q)"
      by (auto simp add: term_parser_feed_def Let_def)
    moreover have "parser_inv q"
      unfolding q by (rule parser_inv_fresh_seq [OF inv seq_bounded_clear]) (simp add: parser_clear_def)
    ultimately show ?thesis by simp
  next
    case (ACTION_BEGIN start ty)
    with feed have q: "q = p\<lparr>seq := parser_clear\<lparr>seq_type := ty\<rparr>, state := start\<rparr>" and "out = None"
      by (auto simp add: term_parser_feed_def)
    moreover have "parser_inv q"
      unfolding q by (rule parser_inv_fresh_seq [OF inv seq_bounded_clear'(1)]) (simp add: parser_clear_def)
    ultimately show ?thesis by simp
  next
    case (ACTION_COLLECT target)
    with feed have "q = p \<or> q = p\<lparr>seq := parser_collect (seq p) raw, state := target\<rparr>"
      and "out = None"
      by (auto simp add: term_parser_feed_def split: if_splits)
    moreover have "parser_inv (p\<lparr>seq := parser_collect (seq p) raw, state := target\<rparr>)"
      using inv by (intro parser_inv_seq_update seq_bounded_collect)
        (simp_all add: parser_inv_def parser_collect_def)
    ultimately show ?thesis using inv by auto
  next
    case (ACTION_PARAM target)
    show ?thesis
    proof (cases "parser_ignoring (state p)")
      case True
      with ACTION_PARAM inv feed show ?thesis by (auto simp add: term_parser_feed_def)
    next
      case False
      show ?thesis
      proof (cases "parser_param (seq p) raw")
        case None
        with False ACTION_PARAM inv feed show ?thesis
          by (auto simp add: term_parser_feed_def parser_inv_def)
      next
        case (Some s)
        from inv have "seq_bounded (seq p)" by (simp add: parser_inv_def)
        from seq_bounded_param [OF this Some] inv
        have "parser_inv (p\<lparr>seq := s, state := target\<rparr>)"
          by (intro parser_inv_seq_update) simp_all
        with Some False ACTION_PARAM feed show ?thesis
          by (auto simp add: term_parser_feed_def)
      qed
    qed
  next
    case (ACTION_PUT target)
    show ?thesis
    proof (cases "parser_ignoring (state p)")
      case True
      with ACTION_PUT inv feed show ?thesis by (auto simp add: term_parser_feed_def)
    next
      case False
      show ?thesis
      proof (cases "parser_put can_alloc p raw")
        case (Inl e)
        with False ACTION_PUT feed show ?thesis by (simp add: term_parser_feed_def)
      next
        case (Inr r)
        show ?thesis
        proof (cases r)
          case None
          with Inr False ACTION_PUT inv feed show ?thesis
            by (auto simp add: term_parser_feed_def parser_inv_def)
        next
          case (Some p')
          with Inr parser_inv_put(1) [OF inv, of can_alloc raw p']
          have "parser_inv (p'\<lparr>state := target\<rparr>)" by (simp add: parser_inv_state_update)
          with Some Inr False ACTION_PUT feed show ?thesis
            by (auto simp add: term_parser_feed_def)
        qed
      qed
    qed
  next
    case ACTION_FINISH
    with feed have "seq_bounded (seq q) = seq_bounded (seq p)" "n_st (seq q) = n_st (seq p)"
      "st_alloc q = st_alloc p" "out = Some (seq q)"
      by (auto simp add: term_parser_feed_def Let_def seq_bounded_def)
    with inv show ?thesis by (simp add: parser_inv_def)
  next
    case ACTION_ABORT
    with feed have q: "q = p\<lparr>seq := parser_clear\<lparr>seq_type := TERM_SEQ_IGNORE, terminator := raw\<rparr>,
        state := STATE_GROUND\<rparr>" and "out = Some (seq q)"
      by (auto simp add: term_parser_feed_def Let_def)
    moreover have "parser_inv q"
      unfolding q by (rule parser_inv_fresh_seq [OF inv seq_bounded_clear'(2)]) (simp add: parser_clear_def)
    ultimately show ?thesis by simp
  qed
  then show "parser_inv q" and "out = None \<or> out = Some (seq q)" by simp_all
qed

lemma parser_inv_run:
  "parser_inv p \<Longrightarrow>
     \<forall>(q, out) \<in> set (term_parser_run table lookup can_alloc p raws).
        parser_inv q \<and> (out = None \<or> out = Some (seq q))"
proof (induction raws arbitrary: p)
  case Nil
  then show ?case by simp
next
  case (Cons raw raws)
  show ?case
  proof (cases "term_parser_feed table lookup can_alloc p raw")
    case (Inl e)
    with Cons show ?thesis by simp
  next
    case (Inr r)
    obtain q out where r: "r = (q, out)" by (cases r)
    from parser_inv_feed [OF Cons.prems Inr [unfolded r]]
    have "parser_inv q" "out = None \<or> out = Some (seq q)" by simp_all
    with Cons.IH [of q] Inr r show ?thesis by simp
  qed
qed

text \<open>
  C6. Sequence overflow is bounded and normalised. For every transition table, command
  table and allocator, after every input of every stream fed to a new parser the
  sequence has at most \<open>TERM_PARSER_ARG_MAX = 16\<close> parameters and at most
  \<open>TERM_PARSER_ST_MAX = 4096\<close> payload bytes, every record handed out has these
  bounds, and the string buffer is at most 4096 bytes. A parameter beyond the 16th and
  a payload byte beyond the 4096th route the sequence to its ignore state; there
  further parameters, intermediates and payload bytes change nothing, and the
  terminator closes the sequence: a record is handed out with
  \<open>command = TERM_CMD_NONE\<close> and the parser is in GROUND.
\<close>

theorem term_parser_overflow_bounded:
  "parser_inv (term_parser_new host)
   \<and> (\<forall>(q, out) \<in> set (term_parser_run table lookup can_alloc (term_parser_new host) raws).
        unat (n_args (seq q)) \<le> TERM_PARSER_ARG_MAX
        \<and> unat (n_st (seq q)) \<le> TERM_PARSER_ST_MAX
        \<and> unat (st_alloc q) \<le> TERM_PARSER_ST_MAX
        \<and> (out = None \<or> out = Some (seq q)))
   \<and> (parser_inv p \<and> \<not> parser_ignoring (state p) \<and> table (state p) raw = ACTION_PARAM target
        \<and> raw = 0x3B \<and> unat (n_args (seq p)) = TERM_PARSER_ARG_MAX \<longrightarrow>
        term_parser_feed table lookup can_alloc p raw =
          Inr (p\<lparr>state := parser_ignore_state (state p)\<rparr>, None))
   \<and> (parser_inv p \<and> \<not> parser_ignoring (state p) \<and> table (state p) raw = ACTION_PUT target
        \<and> unat (n_st (seq p)) = TERM_PARSER_ST_MAX \<longrightarrow>
        term_parser_feed table lookup can_alloc p raw =
          Inr (p\<lparr>state := parser_ignore_state (state p)\<rparr>, None))
   \<and> parser_ignoring (parser_ignore_state t)
   \<and> (parser_ignoring (state p)
        \<and> (table (state p) raw = ACTION_PARAM target \<or> table (state p) raw = ACTION_PUT target
            \<or> table (state p) raw = ACTION_COLLECT target
            \<or> table (state p) raw = ACTION_NONE target) \<longrightarrow>
        term_parser_feed table lookup can_alloc p raw = Inr (p, None))
   \<and> (parser_ignoring (state p) \<and> table (state p) raw = ACTION_FINISH \<longrightarrow>
        term_parser_feed table lookup can_alloc p raw =
          Inr (p\<lparr>seq := (seq p)\<lparr>terminator := raw, command := TERM_CMD_NONE\<rparr>,
                  state := STATE_GROUND\<rparr>,
               Some ((seq p)\<lparr>terminator := raw, command := TERM_CMD_NONE\<rparr>)))"
proof (intro conjI impI)
  show "parser_inv (term_parser_new host)" by (rule parser_inv_new)
next
  from parser_inv_run [OF parser_inv_new, of table lookup can_alloc host raws]
  show "\<forall>(q, out) \<in> set (term_parser_run table lookup can_alloc (term_parser_new host) raws).
        unat (n_args (seq q)) \<le> TERM_PARSER_ARG_MAX
        \<and> unat (n_st (seq q)) \<le> TERM_PARSER_ST_MAX
        \<and> unat (st_alloc q) \<le> TERM_PARSER_ST_MAX
        \<and> (out = None \<or> out = Some (seq q))"
    by (fastforce simp add: parser_inv_def seq_bounded_def)
next
  assume a: "parser_inv p \<and> \<not> parser_ignoring (state p) \<and> table (state p) raw = ACTION_PARAM target
        \<and> raw = 0x3B \<and> unat (n_args (seq p)) = TERM_PARSER_ARG_MAX"
  then have t: "table (state p) raw = ACTION_PARAM target" and ni: "\<not> parser_ignoring (state p)"
    and full: "unat (n_args (seq p)) = TERM_PARSER_ARG_MAX" and semi: "raw = 0x3B"
    by blast+
  from full have "n_args (seq p) \<noteq> 0"
    by (auto simp add: TERM_PARSER_ARG_MAX_def)
  with full semi have "parser_param (seq p) raw = None"
    by (simp add: parser_param_def)
  with t ni show "term_parser_feed table lookup can_alloc p raw =
          Inr (p\<lparr>state := parser_ignore_state (state p)\<rparr>, None)"
    by (simp add: term_parser_feed_def)
next
  assume a: "parser_inv p \<and> \<not> parser_ignoring (state p) \<and> table (state p) raw = ACTION_PUT target
        \<and> unat (n_st (seq p)) = TERM_PARSER_ST_MAX"
  then have "parser_put can_alloc p raw = Inr None"
    by (simp add: parser_put_def Let_def)
  with a show "term_parser_feed table lookup can_alloc p raw =
          Inr (p\<lparr>state := parser_ignore_state (state p)\<rparr>, None)"
    by (simp add: term_parser_feed_def)
next
  show "parser_ignoring (parser_ignore_state t)"
    by (simp add: parser_ignoring_def parser_ignore_state_def)
next
  assume "parser_ignoring (state p)
        \<and> (table (state p) raw = ACTION_PARAM target \<or> table (state p) raw = ACTION_PUT target
            \<or> table (state p) raw = ACTION_COLLECT target
            \<or> table (state p) raw = ACTION_NONE target)"
  then show "term_parser_feed table lookup can_alloc p raw = Inr (p, None)"
    by (auto simp add: term_parser_feed_def)
next
  assume "parser_ignoring (state p) \<and> table (state p) raw = ACTION_FINISH"
  then show "term_parser_feed table lookup can_alloc p raw =
          Inr (p\<lparr>seq := (seq p)\<lparr>terminator := raw, command := TERM_CMD_NONE\<rparr>,
                  state := STATE_GROUND\<rparr>,
               Some ((seq p)\<lparr>terminator := raw, command := TERM_CMD_NONE\<rparr>))"
    by (simp add: term_parser_feed_def Let_def)
qed

theorem term_parser_overflow_bounded_witness:
  "(let table = (\<lambda>s raw.
           if raw = 0x9B then ACTION_BEGIN STATE_CSI_ENTRY TERM_SEQ_CSI
           else if raw = 0x9D then ACTION_BEGIN STATE_OSC_STRING TERM_SEQ_OSC
           else if raw = 0x3B \<or> (0x30 \<le> raw \<and> raw \<le> 0x39) then ACTION_PARAM STATE_CSI_PARAM
           else if raw = 0x07 \<or> raw = 0x48 then ACTION_FINISH
           else if s = STATE_OSC_STRING then ACTION_PUT STATE_OSC_STRING
           else ACTION_NONE s);
        lookup = (\<lambda>host s. 13);
        can_alloc = (\<lambda>size. True);
        run = term_parser_run table lookup can_alloc (term_parser_new True)
                [0x9B, 0x3B, 0x3B, 0x3B, 0x3B, 0x3B, 0x3B, 0x3B, 0x3B, 0x3B, 0x3B, 0x3B, 0x3B,
                 0x3B, 0x3B, 0x3B, 0x3B, 0x35, 0x48, 0x9B, 0x3B, 0x35, 0x48];
        full = \<lparr>seq = parser_clear\<lparr>seq_type := TERM_SEQ_OSC, n_st := 4096,
                                      st := replicate 4096 0x41\<rparr>,
                 st_alloc = 4096, state = STATE_OSC_STRING, is_host = True\<rparr>;
        args16 = \<lparr>seq = parser_clear\<lparr>seq_type := TERM_SEQ_CSI, n_args := 16\<rparr>,
                   st_alloc = 0, state = STATE_CSI_PARAM, is_host = True\<rparr>
    in map (\<lambda>(q, out). state q) run =
         [STATE_CSI_ENTRY, STATE_CSI_PARAM, STATE_CSI_PARAM, STATE_CSI_PARAM, STATE_CSI_PARAM,
          STATE_CSI_PARAM, STATE_CSI_PARAM, STATE_CSI_PARAM, STATE_CSI_PARAM, STATE_CSI_PARAM,
          STATE_CSI_PARAM, STATE_CSI_PARAM, STATE_CSI_PARAM, STATE_CSI_PARAM, STATE_CSI_PARAM,
          STATE_CSI_PARAM, STATE_CSI_IGNORE, STATE_CSI_IGNORE, STATE_GROUND,
          STATE_CSI_ENTRY, STATE_CSI_PARAM, STATE_CSI_PARAM, STATE_GROUND]
       \<and> map (\<lambda>(q, out). n_args (seq q)) run =
         [0, 2, 3, 4, 5, 6, 7, 8, 9, 10, 11, 12, 13, 14, 15, 16, 16, 16, 16, 0, 2, 2, 2]
       \<and> map (\<lambda>(q, out). map_option command out) run =
         [None, None, None, None, None, None, None, None, None, None, None, None, None, None,
          None, None, None, None, Some TERM_CMD_NONE, None, None, None, Some 13]
       \<and> map_option (\<lambda>s. (args s ! 0, args s ! 1)) (snd (last run)) = Some (- 1, 5)
       \<and> parser_inv args16 \<and> \<not> parser_ignoring (state args16)
       \<and> table (state args16) 0x3B = ACTION_PARAM STATE_CSI_PARAM
       \<and> unat (n_args (seq args16)) = TERM_PARSER_ARG_MAX
       \<and> term_parser_feed table lookup can_alloc args16 0x3B =
            Inr (args16\<lparr>state := STATE_CSI_IGNORE\<rparr>, None)
       \<and> parser_inv full \<and> \<not> parser_ignoring (state full)
       \<and> table (state full) 0x41 = ACTION_PUT STATE_OSC_STRING
       \<and> unat (n_st (seq full)) = TERM_PARSER_ST_MAX
       \<and> term_parser_feed table lookup can_alloc full 0x41 =
            Inr (full\<lparr>state := STATE_DCS_IGNORE\<rparr>, None)
       \<and> parser_ignoring STATE_DCS_IGNORE
       \<and> table STATE_DCS_IGNORE 0x41 = ACTION_NONE STATE_DCS_IGNORE
       \<and> table STATE_DCS_IGNORE 0x07 = ACTION_FINISH
       \<and> term_parser_feed table lookup can_alloc (full\<lparr>state := STATE_DCS_IGNORE\<rparr>) 0x41 =
            Inr (full\<lparr>state := STATE_DCS_IGNORE\<rparr>, None)
       \<and> term_parser_feed table lookup can_alloc (full\<lparr>state := STATE_DCS_IGNORE\<rparr>) 0x07 =
            Inr (full\<lparr>seq := (seq full)\<lparr>terminator := 0x07, command := TERM_CMD_NONE\<rparr>,
                      state := STATE_GROUND\<rparr>,
                 Some ((seq full)\<lparr>terminator := 0x07, command := TERM_CMD_NONE\<rparr>)))"
proof -
  define table :: "parser_state \<Rightarrow> 32 word \<Rightarrow> parser_action" where
    "table = (\<lambda>s raw.
           if raw = 0x9B then ACTION_BEGIN STATE_CSI_ENTRY TERM_SEQ_CSI
           else if raw = 0x9D then ACTION_BEGIN STATE_OSC_STRING TERM_SEQ_OSC
           else if raw = 0x3B \<or> (0x30 \<le> raw \<and> raw \<le> 0x39) then ACTION_PARAM STATE_CSI_PARAM
           else if raw = 0x07 \<or> raw = 0x48 then ACTION_FINISH
           else if s = STATE_OSC_STRING then ACTION_PUT STATE_OSC_STRING
           else ACTION_NONE s)"
  define full :: term_parser where
    "full = \<lparr>seq = parser_clear\<lparr>seq_type := TERM_SEQ_OSC, n_st := 4096,
                                      st := replicate 4096 0x41\<rparr>,
                 st_alloc = 4096, state = STATE_OSC_STRING, is_host = True\<rparr>"
  define args16 :: term_parser where
    "args16 = \<lparr>seq = parser_clear\<lparr>seq_type := TERM_SEQ_CSI, n_args := 16\<rparr>,
                   st_alloc = 0, state = STATE_CSI_PARAM, is_host = True\<rparr>"
  note too_many = term_parser_overflow_bounded
      [where table = table and lookup = "\<lambda>host s. 13" and can_alloc = "\<lambda>size. True"
         and host = True and p = args16 and raw = "0x3B" and target = STATE_CSI_PARAM
         and t = STATE_CSI_PARAM and raws = "[]"]
  note discarded = term_parser_overflow_bounded
      [where table = table and lookup = "\<lambda>host s. 13" and can_alloc = "\<lambda>size. True"
         and host = True and p = "full\<lparr>state := STATE_DCS_IGNORE\<rparr>" and raw = "0x41"
         and target = STATE_DCS_IGNORE and t = STATE_OSC_STRING and raws = "[]"]
  note overflow = term_parser_overflow_bounded
      [where table = table and lookup = "\<lambda>host s. 13" and can_alloc = "\<lambda>size. True"
         and host = True and p = full and raw = "0x41" and target = STATE_OSC_STRING
         and t = STATE_OSC_STRING
         and raws = "[0x9B, 0x3B, 0x3B, 0x3B, 0x3B, 0x3B, 0x3B, 0x3B, 0x3B, 0x3B, 0x3B, 0x3B,
                 0x3B, 0x3B, 0x3B, 0x3B, 0x3B, 0x35, 0x48, 0x9B, 0x3B, 0x35, 0x48]"]
  note ignored = term_parser_overflow_bounded
      [where table = table and lookup = "\<lambda>host s. 13" and can_alloc = "\<lambda>size. True"
         and host = True and p = "full\<lparr>state := STATE_DCS_IGNORE\<rparr>" and raw = "0x07"
         and target = STATE_OSC_STRING and t = STATE_OSC_STRING and raws = "[]"]
  show ?thesis
    using too_many overflow discarded ignored
    unfolding Let_def table_def full_def args16_def
    by (simp add: Let_def term_parser_feed_def parser_param_def parser_put_def parser_clear_def
        term_parser_new_def parser_ignoring_def parser_ignore_state_def parser_inv_def
        seq_bounded_def TERM_PARSER_ARG_MAX_def TERM_PARSER_ST_MAX_def TERM_SEQ_CSI_def
        TERM_SEQ_OSC_def TERM_SEQ_DCS_def TERM_SEQ_ESCAPE_def TERM_SEQ_CONTROL_def
        TERM_SEQ_GRAPHIC_def TERM_SEQ_IGNORE_def TERM_SEQ_NONE_def TERM_CMD_NONE_def)
qed

end
